theory Spec2Isabelle
  imports
    Main
    "HOL-Library.Multiset"
    "HOL-Library.Char_ord"
    "HOL-Library.List_Lexorder"
    "HOL-Library.Option_ord"
    "HOL-Library.Product_Lexorder"
begin

section \<open>Values, errors and insertion-ordered dictionaries\<close>

text \<open>
  The server is one Python module, \<^verbatim>\<open>mcp_server_mysql.py\<close>. Its three tools acquire a
  pooled connection, run one or two statements on a dictionary cursor and shape the rows
  that come back. Exceptions are values of the type \<open>error\<close>; a computation that may raise
  returns \<open>error + 'a\<close> with \<open>Inl\<close> for the exception.
\<close>

datatype error =
    KeyError
  | ValueError
  | DbError string

text \<open>
  A Python \<^verbatim>\<open>dict\<close> keeps its keys in insertion order and the tools return
  \<^verbatim>\<open>list(d.values())\<close>, so a dictionary is an association list in insertion order.
  \<open>od_contains\<close> is \<^verbatim>\<open>k in d\<close>, \<open>od_getitem\<close> is \<^verbatim>\<open>d[k]\<close> (raising \<^verbatim>\<open>KeyError\<close> on a
  missing key), \<open>od_setitem\<close> is \<^verbatim>\<open>d[k] = v\<close> (a present key keeps its position, a new key
  goes to the end) and \<open>od_values\<close> is \<^verbatim>\<open>list(d.values())\<close>.
\<close>

type_synonym ('k, 'v) odict = "('k \<times> 'v) list"

definition od_contains :: "'k \<Rightarrow> ('k, 'v) odict \<Rightarrow> bool" where
  "od_contains k d = (k \<in> set (map fst d))"

definition od_getitem :: "'k \<Rightarrow> ('k, 'v) odict \<Rightarrow> error + 'v" where
  "od_getitem k d = (case map_of d k of None \<Rightarrow> Inl KeyError | Some v \<Rightarrow> Inr v)"

definition od_setitem :: "'k \<Rightarrow> 'v \<Rightarrow> ('k, 'v) odict \<Rightarrow> ('k, 'v) odict" where
  "od_setitem k v d =
     (if od_contains k d
      then map (\<lambda>(k', v'). if k' = k then (k', v) else (k', v')) d
      else d @ [(k, v)])"

definition od_values :: "('k, 'v) odict \<Rightarrow> 'v list" where
  "od_values d = map snd d"

text \<open>
  A column of a catalog row holds a string or \<^verbatim>\<open>None\<close> (SQL NULL), or an integer.
  \<open>py_str\<close> is what an f-string prints for such a value.
\<close>

definition py_str :: "string option \<Rightarrow> string" where
  "py_str v = (case v of None \<Rightarrow> ''None'' | Some s \<Rightarrow> s)"

section \<open>The index fold\<close>

text \<open>
  One row of the index-statistics query, with the columns of its SELECT list:
  \<^verbatim>\<open>INDEX_NAME, NON_UNIQUE = 0 AS IS_PRIMARY_OR_UNIQUE, SEQ_IN_INDEX, COLUMN_NAME\<close>.
\<close>

record index_row =
  INDEX_NAME :: "string option"
  IS_PRIMARY_OR_UNIQUE :: int
  SEQ_IN_INDEX :: int
  IX_COLUMN_NAME :: "string option"

record index_column =
  ic_name :: "string option"
  ic_seq_in_index :: int

record index_descriptor =
  ix_name :: string
  is_primary_or_unique :: bool
  ix_columns :: "index_column list"

text \<open>
  \<^verbatim>\<open>idx_name = row["INDEX_NAME"] or "(unnamed)"\<close>: \<^verbatim>\<open>None\<close> and the empty string are
  falsy.
\<close>

definition idx_name_of :: "index_row \<Rightarrow> string" where
  "idx_name_of row =
     (case INDEX_NAME row of
        None \<Rightarrow> ''(unnamed)''
      | Some s \<Rightarrow> if s = [] then ''(unnamed)'' else s)"

definition new_index :: "index_row \<Rightarrow> index_descriptor" where
  "new_index row =
     \<lparr>ix_name = idx_name_of row,
      is_primary_or_unique = (IS_PRIMARY_OR_UNIQUE row \<noteq> 0),
      ix_columns = []\<rparr>"

definition index_entry :: "index_row \<Rightarrow> index_column" where
  "index_entry row = \<lparr>ic_name = IX_COLUMN_NAME row, ic_seq_in_index = SEQ_IN_INDEX row\<rparr>"

definition add_index_column :: "index_row \<Rightarrow> index_descriptor \<Rightarrow> index_descriptor" where
  "add_index_column row d = d\<lparr>ix_columns := ix_columns d @ [index_entry row]\<rparr>"

text \<open>
  The body of \<^verbatim>\<open>for row in idx_rows\<close>: create the descriptor when the name is new, then
  look it up again and append the column to it.
\<close>

definition index_step ::
  "(string, index_descriptor) odict \<Rightarrow> index_row \<Rightarrow> error + (string, index_descriptor) odict"
where
  "index_step indexes row =
     (let idx_name = idx_name_of row;
          indexes1 = (if \<not> od_contains idx_name indexes
                      then od_setitem idx_name (new_index row) indexes
                      else indexes)
      in case od_getitem idx_name indexes1 of
           Inl e \<Rightarrow> Inl e
         | Inr d \<Rightarrow> Inr (od_setitem idx_name (add_index_column row d) indexes1))"

fun index_loop ::
  "(string, index_descriptor) odict \<Rightarrow> index_row list \<Rightarrow> error + (string, index_descriptor) odict"
where
  "index_loop indexes [] = Inr indexes"
| "index_loop indexes (row # rows) =
     (case index_step indexes row of
        Inl e \<Rightarrow> Inl e
      | Inr indexes' \<Rightarrow> index_loop indexes' rows)"

definition index_fold :: "index_row list \<Rightarrow> error + (string, index_descriptor) odict" where
  "index_fold idx_rows = index_loop [] idx_rows"

section \<open>The foreign-key fold\<close>

text \<open>
  One row of the key-usage query:
  \<^verbatim>\<open>CONSTRAINT_NAME, TABLE_SCHEMA, TABLE_NAME, COLUMN_NAME, REFERENCED_TABLE_SCHEMA,
  REFERENCED_TABLE_NAME, REFERENCED_COLUMN_NAME\<close>.
\<close>

record fk_row =
  CONSTRAINT_NAME :: "string option"
  TABLE_SCHEMA :: "string option"
  TABLE_NAME :: "string option"
  FK_COLUMN_NAME :: "string option"
  REFERENCED_TABLE_SCHEMA :: "string option"
  REFERENCED_TABLE_NAME :: "string option"
  REFERENCED_COLUMN_NAME :: "string option"

record fk_column =
  fc_column :: "string option"
  fc_references :: "string option"

record outbound_fk =
  ob_name :: "string option"
  target_schema :: "string option"
  target_table :: "string option"
  ob_columns :: "fk_column list"

record inbound_fk =
  ib_name :: "string option"
  source_schema :: "string option"
  source_table :: "string option"
  ib_columns :: "fk_column list"

definition fk_entry :: "fk_row \<Rightarrow> fk_column" where
  "fk_entry row = \<lparr>fc_column = FK_COLUMN_NAME row, fc_references = REFERENCED_COLUMN_NAME row\<rparr>"

definition new_outbound :: "fk_row \<Rightarrow> outbound_fk" where
  "new_outbound row =
     \<lparr>ob_name = CONSTRAINT_NAME row,
      target_schema = REFERENCED_TABLE_SCHEMA row,
      target_table = REFERENCED_TABLE_NAME row,
      ob_columns = []\<rparr>"

definition add_outbound_column :: "fk_row \<Rightarrow> outbound_fk \<Rightarrow> outbound_fk" where
  "add_outbound_column row d = d\<lparr>ob_columns := ob_columns d @ [fk_entry row]\<rparr>"

text \<open>
  \<^verbatim>\<open>key = f"{row['REFERENCED_TABLE_SCHEMA']}.{row['REFERENCED_TABLE_NAME']}.{fk_name}"\<close>
\<close>

definition inbound_key :: "fk_row \<Rightarrow> string" where
  "inbound_key row =
     py_str (REFERENCED_TABLE_SCHEMA row) @ ''.'' @ py_str (REFERENCED_TABLE_NAME row)
       @ ''.'' @ py_str (CONSTRAINT_NAME row)"

text \<open>
  The data model names the grouping key of the inbound dictionary as the triple
  (referenced schema, referenced table, constraint name); \<open>inbound_key\<close> above is what
  the code builds from it.
\<close>

definition ref_triple :: "fk_row \<Rightarrow> string option \<times> string option \<times> string option" where
  "ref_triple row =
     (REFERENCED_TABLE_SCHEMA row, REFERENCED_TABLE_NAME row, CONSTRAINT_NAME row)"

definition new_inbound :: "fk_row \<Rightarrow> inbound_fk" where
  "new_inbound row =
     \<lparr>ib_name = CONSTRAINT_NAME row,
      source_schema = TABLE_SCHEMA row,
      source_table = TABLE_NAME row,
      ib_columns = []\<rparr>"

definition add_inbound_column :: "fk_row \<Rightarrow> inbound_fk \<Rightarrow> inbound_fk" where
  "add_inbound_column row d = d\<lparr>ib_columns := ib_columns d @ [fk_entry row]\<rparr>"

type_synonym fk_maps = "(string option, outbound_fk) odict \<times> (string, inbound_fk) odict"

text \<open>
  The body of \<^verbatim>\<open>for row in fk_rows\<close>: the outbound dictionary is keyed by the constraint
  name as the row holds it, the inbound dictionary by the formatted key.
\<close>

definition fk_step :: "fk_maps \<Rightarrow> fk_row \<Rightarrow> error + fk_maps" where
  "fk_step maps row =
     (let outbound = fst maps;
          inbound = snd maps;
          fk_name = CONSTRAINT_NAME row;
          outbound1 = (if \<not> od_contains fk_name outbound
                       then od_setitem fk_name (new_outbound row) outbound
                       else outbound)
      in case od_getitem fk_name outbound1 of
           Inl e \<Rightarrow> Inl e
         | Inr d \<Rightarrow>
             (let outbound2 = od_setitem fk_name (add_outbound_column row d) outbound1;
                  key = inbound_key row;
                  inbound1 = (if \<not> od_contains key inbound
                              then od_setitem key (new_inbound row) inbound
                              else inbound)
              in case od_getitem key inbound1 of
                   Inl e \<Rightarrow> Inl e
                 | Inr d' \<Rightarrow>
                     Inr (outbound2, od_setitem key (add_inbound_column row d') inbound1)))"

fun fk_loop :: "fk_maps \<Rightarrow> fk_row list \<Rightarrow> error + fk_maps" where
  "fk_loop maps [] = Inr maps"
| "fk_loop maps (row # rows) =
     (case fk_step maps row of
        Inl e \<Rightarrow> Inl e
      | Inr maps' \<Rightarrow> fk_loop maps' rows)"

definition fk_fold :: "fk_row list \<Rightarrow> error + fk_maps" where
  "fk_fold fk_rows = fk_loop ([], []) fk_rows"

section \<open>Grouping in first-occurrence order\<close>

text \<open>
  Both folds have one shape: find the row's key, create the value when the key is new,
  look the value up and replace it by the extended one. \<open>grp_step\<close> is that shape with the
  key, the constructor and the extension as parameters, and \<open>grouped\<close> says in closed form
  what the loop builds: one entry per distinct key, in the order in which the keys first
  occur, begun from the first row of the key and extended by every row of the key in
  input order.
\<close>

definition grp_step ::
  "('r \<Rightarrow> 'k) \<Rightarrow> ('r \<Rightarrow> 'v) \<Rightarrow> ('r \<Rightarrow> 'v \<Rightarrow> 'v) \<Rightarrow> ('k, 'v) odict \<Rightarrow> 'r \<Rightarrow> error + ('k, 'v) odict"
where
  "grp_step key new add d row =
     (let k = key row;
          d1 = (if \<not> od_contains k d then od_setitem k (new row) d else d)
      in case od_getitem k d1 of
           Inl e \<Rightarrow> Inl e
         | Inr v \<Rightarrow> Inr (od_setitem k (add row v) d1))"

fun grp_loop ::
  "('r \<Rightarrow> 'k) \<Rightarrow> ('r \<Rightarrow> 'v) \<Rightarrow> ('r \<Rightarrow> 'v \<Rightarrow> 'v) \<Rightarrow> ('k, 'v) odict \<Rightarrow> 'r list \<Rightarrow> error + ('k, 'v) odict"
where
  "grp_loop key new add d [] = Inr d"
| "grp_loop key new add d (row # rows) =
     (case grp_step key new add d row of
        Inl e \<Rightarrow> Inl e
      | Inr d' \<Rightarrow> grp_loop key new add d' rows)"

definition first_keys :: "'k list \<Rightarrow> 'k list" where
  "first_keys ks = rev (remdups (rev ks))"

definition rows_of :: "('r \<Rightarrow> 'k) \<Rightarrow> 'k \<Rightarrow> 'r list \<Rightarrow> 'r list" where
  "rows_of key k rows = filter (\<lambda>r. key r = k) rows"

definition grouped ::
  "('r \<Rightarrow> 'k) \<Rightarrow> ('r \<Rightarrow> 'v) \<Rightarrow> ('r \<Rightarrow> 'v \<Rightarrow> 'v) \<Rightarrow> 'r list \<Rightarrow> ('k, 'v) odict"
where
  "grouped key new add rows =
     map (\<lambda>k. (k, foldl (\<lambda>v r. add r v) (new (hd (rows_of key k rows))) (rows_of key k rows)))
       (first_keys (map key rows))"

section \<open>Sorting, as the ordering properties speak of it\<close>

text \<open>
  The code never sorts. Two sorts appear in the ordering property of the index fold only:
  the catalog's \<^verbatim>\<open>ORDER BY INDEX_NAME, SEQ_IN_INDEX\<close> on the rows (NULL first, as
  \<open>None\<close> is least), and a sort of a descriptor's columns by their sequence number. Both
  are stable sorts by the named key.
\<close>

definition name_seq :: "index_row \<Rightarrow> string option \<times> int" where
  "name_seq row = (INDEX_NAME row, SEQ_IN_INDEX row)"

definition sort_columns :: "index_descriptor \<Rightarrow> index_descriptor" where
  "sort_columns d = d\<lparr>ix_columns := sort_key ic_seq_in_index (ix_columns d)\<rparr>"

section \<open>Connections, cursors and the three tools\<close>

text \<open>
  The driver is outside the program. What a tool does with it is a sequence of calls, and
  each call either returns or raises. No call site of a tool sits in a loop, so one run of
  a tool makes each of its driver calls at most once, and a record with the outcome of
  every call site (a script) stands for the driver's behaviour in that run; a property
  proved for all scripts holds for every driver. A run yields the calls made, in order,
  and the value returned or the exception that leaves the tool.
\<close>

datatype statement =
    Sql string
  | ColumnQuery
  | IndexQuery
  | FkQuery

datatype event =
    GetConn
  | CursorOpen
  | Execute statement "string list"
  | FetchAll
  | Commit
  | CursorClose
  | ConnClose

type_synonym 'a run = "event list \<times> (error + 'a)"

record conn_script =
  get_conn_res :: "error option"
  cursor_res :: "error option"
  cursor_exit_res :: "error option"
  close_res :: "error option"

text \<open>
  \<^verbatim>\<open>try: ... finally: conn.close()\<close>: the close is called whatever the body did; an
  exception of the close replaces the body's outcome.
\<close>

definition try_finally_close :: "error option \<Rightarrow> 'a run \<Rightarrow> 'a run" where
  "try_finally_close cl body =
     (case body of (tr, res) \<Rightarrow>
        (tr @ [ConnClose], case cl of Some e \<Rightarrow> Inl e | None \<Rightarrow> res))"

text \<open>
  \<^verbatim>\<open>with conn.cursor(dictionary=True) as cur:\<close>: when the cursor is made, its exit closes
  it on every way out of the block, and does not swallow the exception.
\<close>

definition with_cursor :: "error option \<Rightarrow> error option \<Rightarrow> 'a run \<Rightarrow> 'a run" where
  "with_cursor cur ex body =
     (case cur of
        Some e \<Rightarrow> ([CursorOpen], Inl e)
      | None \<Rightarrow>
          (case body of (tr, res) \<Rightarrow>
             (CursorOpen # tr @ [CursorClose], case ex of Some e \<Rightarrow> Inl e | None \<Rightarrow> res)))"

text \<open>\<^verbatim>\<open>conn = get_conn()\<close> stands before the \<^verbatim>\<open>try\<close>: when it raises nothing is closed.\<close>

definition with_conn :: "error option \<Rightarrow> error option \<Rightarrow> 'a run \<Rightarrow> 'a run" where
  "with_conn got cl body =
     (case got of
        Some e \<Rightarrow> ([GetConn], Inl e)
      | None \<Rightarrow> (case try_finally_close cl body of (tr, res) \<Rightarrow> (GetConn # tr, res)))"

subsection \<open>run_query\<close>

text \<open>
  \<open>description\<close> is \<^verbatim>\<open>cur.description\<close> after the execute: \<^verbatim>\<open>None\<close>, or a list of column
  tuples whose first component is the name. A row of a dictionary cursor maps column
  names to values.
\<close>

record ('v, 'd) query_script = conn_script +
  execute_res :: "error option"
  description :: "(string \<times> 'd) list option"
  fetchall_res :: "error + (string \<rightharpoonup> 'v) list"
  commit_res :: "error option"
  rowcount :: int

text \<open>
  The two results of \<^verbatim>\<open>run_query\<close>: \<^verbatim>\<open>{"columns": ..., "rows": ...}\<close> and
  \<^verbatim>\<open>{"rows_affected": ...}\<close>.
\<close>

datatype 'v query_result =
    Rows "string list" "(string \<rightharpoonup> 'v) list"
  | RowsAffected int

text \<open>\<^verbatim>\<open>if cur.description:\<close> is Python truth: \<^verbatim>\<open>None\<close> and the empty list are falsy.\<close>

definition has_result_set :: "(string \<times> 'd) list option \<Rightarrow> bool" where
  "has_result_set desc = (case desc of None \<Rightarrow> False | Some cols \<Rightarrow> cols \<noteq> [])"

definition run_query_body :: "('v, 'd) query_script \<Rightarrow> string \<Rightarrow> 'v query_result run" where
  "run_query_body s sql =
     (case execute_res s of
        Some e \<Rightarrow> ([Execute (Sql sql) []], Inl e)
      | None \<Rightarrow>
          if has_result_set (description s)
          then (case fetchall_res s of
                  Inl e \<Rightarrow> ([Execute (Sql sql) [], FetchAll], Inl e)
                | Inr rs \<Rightarrow>
                    ([Execute (Sql sql) [], FetchAll],
                     Inr (Rows (map fst (case description s of None \<Rightarrow> [] | Some cols \<Rightarrow> cols)) rs)))
          else (case commit_res s of
                  Some e \<Rightarrow> ([Execute (Sql sql) [], Commit], Inl e)
                | None \<Rightarrow> ([Execute (Sql sql) [], Commit], Inr (RowsAffected (rowcount s)))))"

definition run_query :: "('v, 'd) query_script \<Rightarrow> string \<Rightarrow> 'v query_result run" where
  "run_query s sql =
     with_conn (get_conn_res s) (close_res s)
       (with_cursor (cursor_res s) (cursor_exit_res s) (run_query_body s sql))"

subsection \<open>describe_table\<close>

record column_row =
  COLUMN_NAME :: "string option"
  DATA_TYPE :: "string option"
  IS_NULLABLE :: "string option"
  CHARACTER_MAXIMUM_LENGTH :: "int option"

record column_descriptor =
  cd_column :: "string option"
  cd_type :: "string option"
  cd_nullable :: bool
  cd_length :: "int option"

record column_script = conn_script +
  col_execute_res :: "error option"
  col_fetchall_res :: "error + column_row list"

definition describe_column :: "column_row \<Rightarrow> column_descriptor" where
  "describe_column row =
     \<lparr>cd_column = COLUMN_NAME row,
      cd_type = DATA_TYPE row,
      cd_nullable = (IS_NULLABLE row = Some ''YES''),
      cd_length = CHARACTER_MAXIMUM_LENGTH row\<rparr>"

definition describe_table_body ::
  "column_script \<Rightarrow> string \<Rightarrow> string \<Rightarrow> column_descriptor list run"
where
  "describe_table_body s schema table_name =
     (case col_execute_res s of
        Some e \<Rightarrow> ([Execute ColumnQuery [schema, table_name]], Inl e)
      | None \<Rightarrow>
          (case col_fetchall_res s of
             Inl e \<Rightarrow> ([Execute ColumnQuery [schema, table_name], FetchAll], Inl e)
           | Inr rs \<Rightarrow>
               ([Execute ColumnQuery [schema, table_name], FetchAll],
                Inr (map describe_column rs))))"

definition describe_table ::
  "column_script \<Rightarrow> string \<Rightarrow> string \<Rightarrow> column_descriptor list run"
where
  "describe_table s schema table_name =
     with_conn (get_conn_res s) (close_res s)
       (with_cursor (cursor_res s) (cursor_exit_res s) (describe_table_body s schema table_name))"

subsection \<open>describe_indexes_and_foreign_keys\<close>

record index_script = conn_script +
  idx_execute_res :: "error option"
  idx_fetchall_res :: "error + index_row list"
  fk_execute_res :: "error option"
  fk_fetchall_res :: "error + fk_row list"

record relations =
  indexes :: "index_descriptor list"
  foreign_keys_outbound :: "outbound_fk list"
  foreign_keys_inbound :: "inbound_fk list"

text \<open>
  The block under the cursor: the index query and its fold, then the key-usage query and
  its fold. It leaves the three dictionaries to the \<^verbatim>\<open>return\<close> after the block.
\<close>

definition describe_indexes_body ::
  "index_script \<Rightarrow> string \<Rightarrow> string \<Rightarrow> ((string, index_descriptor) odict \<times> fk_maps) run"
where
  "describe_indexes_body s schema table_name =
     (case idx_execute_res s of
        Some e \<Rightarrow> ([Execute IndexQuery [schema, table_name]], Inl e)
      | None \<Rightarrow>
          (case idx_fetchall_res s of
             Inl e \<Rightarrow> ([Execute IndexQuery [schema, table_name], FetchAll], Inl e)
           | Inr idx_rows \<Rightarrow>
               (case index_fold idx_rows of
                  Inl e \<Rightarrow> ([Execute IndexQuery [schema, table_name], FetchAll], Inl e)
                | Inr ixs \<Rightarrow>
                    (case fk_execute_res s of
                       Some e \<Rightarrow>
                         ([Execute IndexQuery [schema, table_name], FetchAll,
                           Execute FkQuery [schema, table_name]], Inl e)
                     | None \<Rightarrow>
                         (case fk_fetchall_res s of
                            Inl e \<Rightarrow>
                              ([Execute IndexQuery [schema, table_name], FetchAll,
                                Execute FkQuery [schema, table_name], FetchAll], Inl e)
                          | Inr fk_rows \<Rightarrow>
                              ([Execute IndexQuery [schema, table_name], FetchAll,
                                Execute FkQuery [schema, table_name], FetchAll],
                               case fk_fold fk_rows of
                                 Inl e \<Rightarrow> Inl e
                               | Inr maps \<Rightarrow> Inr (ixs, maps)))))))"

definition relations_of :: "(string, index_descriptor) odict \<times> fk_maps \<Rightarrow> relations" where
  "relations_of ds =
     \<lparr>indexes = od_values (fst ds),
      foreign_keys_outbound = od_values (fst (snd ds)),
      foreign_keys_inbound = od_values (snd (snd ds))\<rparr>"

definition describe_indexes_and_foreign_keys ::
  "index_script \<Rightarrow> string \<Rightarrow> string \<Rightarrow> relations run"
where
  "describe_indexes_and_foreign_keys s schema table_name =
     with_conn (get_conn_res s) (close_res s)
       (case with_cursor (cursor_res s) (cursor_exit_res s)
               (describe_indexes_body s schema table_name) of
          (tr, res) \<Rightarrow> (tr, case res of Inl e \<Rightarrow> Inl e | Inr ds \<Rightarrow> Inr (relations_of ds)))"

subsection \<open>The pool\<close>

text \<open>
  \<open>build_connection_pool\<close> reads the environment and gives the pool constructor its
  keyword arguments. Python's \<^verbatim>\<open>int\<close> on a string is a parameter (\<open>None\<close> when it raises
  \<^verbatim>\<open>ValueError\<close>).
\<close>

record pool_config =
  pool_name :: string
  pool_size :: nat
  host :: string
  user :: string
  password :: string
  database :: string
  port :: int
  charset :: string
  autocommit :: bool

definition environ_get :: "(string \<rightharpoonup> string) \<Rightarrow> string \<Rightarrow> error + string" where
  "environ_get env k = (case env k of None \<Rightarrow> Inl KeyError | Some v \<Rightarrow> Inr v)"

definition build_connection_pool ::
  "(string \<Rightarrow> int option) \<Rightarrow> (string \<rightharpoonup> string) \<Rightarrow> error + pool_config"
where
  "build_connection_pool py_int env =
     (case environ_get env ''MYSQL_HOST'' of
        Inl e \<Rightarrow> Inl e
      | Inr h \<Rightarrow>
     (case environ_get env ''MYSQL_USER'' of
        Inl e \<Rightarrow> Inl e
      | Inr u \<Rightarrow>
     (case environ_get env ''MYSQL_PASSWORD'' of
        Inl e \<Rightarrow> Inl e
      | Inr pw \<Rightarrow>
     (case environ_get env ''MYSQL_DB'' of
        Inl e \<Rightarrow> Inl e
      | Inr db \<Rightarrow>
     (case py_int (case env ''MYSQL_PORT'' of None \<Rightarrow> ''3306'' | Some p \<Rightarrow> p) of
        None \<Rightarrow> Inl ValueError
      | Some n \<Rightarrow>
          Inr \<lparr>pool_name = ''mcp_mysql_pool'', pool_size = 5, host = h, user = u,
               password = pw, database = db, port = n, charset = ''utf8mb4'',
               autocommit = False\<rparr>)))))"

section \<open>What the grouping loop computes\<close>

lemma first_keys_snoc:
  "first_keys (ks @ [k]) = (if k \<in> set ks then first_keys ks else first_keys ks @ [k])"
  by (simp add: first_keys_def)

lemma set_first_keys: "set (first_keys ks) = set ks"
  by (simp add: first_keys_def)

lemma distinct_first_keys: "distinct (first_keys ks)"
  by (simp add: first_keys_def)

lemma map_fst_grouped: "map fst (grouped key new add rows) = first_keys (map key rows)"
  by (simp add: grouped_def o_def)

lemma map_of_grouped:
  "map_of (grouped key new add rows) k =
     (if k \<in> key ` set rows
      then Some (foldl (\<lambda>v r. add r v) (new (hd (rows_of key k rows))) (rows_of key k rows))
      else None)"
  unfolding grouped_def
  by (simp add: map_of_map_restrict restrict_map_def set_first_keys)

lemma rows_of_snoc:
  "rows_of key k (rows @ [r]) = (if key r = k then rows_of key k rows @ [r] else rows_of key k rows)"
  by (simp add: rows_of_def)

lemma rows_of_empty_iff: "rows_of key k rows = [] \<longleftrightarrow> k \<notin> key ` set rows"
  by (auto simp: rows_of_def filter_empty_conv)

lemma od_setitem_present:
  "k \<in> set (map fst d) \<Longrightarrow>
     od_setitem k v d = map (\<lambda>(k', v'). if k' = k then (k', v) else (k', v')) d"
  by (simp add: od_setitem_def od_contains_def)

lemma od_setitem_absent:
  "k \<notin> set (map fst d) \<Longrightarrow> od_setitem k v d = d @ [(k, v)]"
  by (simp add: od_setitem_def od_contains_def)

lemma grp_step_grouped:
  "grp_step key new add (grouped key new add rows) r = Inr (grouped key new add (rows @ [r]))"
proof (cases "key r \<in> key ` set rows")
  case True
  then have pres: "key r \<in> set (map fst (grouped key new add rows))"
    by (simp add: map_fst_grouped set_first_keys)
  have ne: "rows_of key (key r) rows \<noteq> []"
    using True by (simp add: rows_of_empty_iff)
  have "grouped key new add (rows @ [r]) =
        map (\<lambda>(k', v'). if k' = key r then (k', add r (foldl (\<lambda>v r. add r v) (new (hd (rows_of key (key r) rows))) (rows_of key (key r) rows))) else (k', v'))
          (grouped key new add rows)"
    using True ne
    by (auto simp: grouped_def first_keys_snoc rows_of_snoc set_first_keys)
  then show ?thesis
    using True pres
    by (simp add: grp_step_def Let_def od_contains_def od_getitem_def map_of_grouped
        od_setitem_present del: set_map)
next
  case False
  then have abs: "key r \<notin> set (map fst (grouped key new add rows))"
    by (simp add: map_fst_grouped set_first_keys)
  have e: "rows_of key (key r) rows = []"
    using False by (simp add: rows_of_empty_iff)
  have g: "grouped key new add (rows @ [r]) =
        grouped key new add rows @ [(key r, add r (new r))]"
    using False e
    by (auto simp: grouped_def first_keys_snoc rows_of_snoc set_first_keys)
  have d1: "od_setitem (key r) (new r) (grouped key new add rows) = grouped key new add rows @ [(key r, new r)]"
    using abs by (rule od_setitem_absent)
  have m: "map_of (grouped key new add rows @ [(key r, new r)]) (key r) = Some (new r)"
    using False by (simp add: map_add_def map_of_grouped)
  have s: "od_setitem (key r) (add r (new r)) (grouped key new add rows @ [(key r, new r)])
           = grouped key new add rows @ [(key r, add r (new r))]"
  proof -
    have "map (\<lambda>(k', v'). if k' = key r then (k', add r (new r)) else (k', v')) (grouped key new add rows)
          = grouped key new add rows"
      using abs by (intro map_idI) force
    then show ?thesis
      by (simp add: od_setitem_def od_contains_def)
  qed
  have c: "\<not> od_contains (key r) (grouped key new add rows)"
    using abs by (simp add: od_contains_def)
  have gi: "od_getitem (key r) (grouped key new add rows @ [(key r, new r)]) = Inr (new r)"
    unfolding od_getitem_def m by simp
  show ?thesis
    unfolding grp_step_def Let_def by (simp add: c d1 gi s g)
qed

lemma grp_loop_snoc:
  "grp_loop key new add d (rows @ [r]) =
     (case grp_loop key new add d rows of
        Inl e \<Rightarrow> Inl e
      | Inr d' \<Rightarrow> grp_step key new add d' r)"
  by (induction rows arbitrary: d) (auto split: sum.splits)

lemma grp_loop_grouped: "grp_loop key new add [] rows = Inr (grouped key new add rows)"
proof (induction rows rule: rev_induct)
  case Nil
  show ?case by (simp add: grouped_def first_keys_def)
next
  case (snoc r rows)
  then show ?case by (simp add: grp_loop_snoc grp_step_grouped)
qed

section \<open>The folds in closed form\<close>

lemma index_step_grp: "index_step d row = grp_step idx_name_of new_index add_index_column d row"
  by (simp add: index_step_def grp_step_def)

lemma index_loop_grp: "index_loop d rs = grp_loop idx_name_of new_index add_index_column d rs"
  by (induction rs arbitrary: d) (simp_all add: index_step_grp split: sum.splits)

lemma fk_step_grp:
  "fk_step maps row =
     (case grp_step CONSTRAINT_NAME new_outbound add_outbound_column (fst maps) row of
        Inl e \<Rightarrow> Inl e
      | Inr out \<Rightarrow>
          (case grp_step inbound_key new_inbound add_inbound_column (snd maps) row of
             Inl e \<Rightarrow> Inl e
           | Inr inb \<Rightarrow> Inr (out, inb)))"
  by (simp add: fk_step_def grp_step_def Let_def split: sum.splits)

lemma fk_loop_snoc:
  "fk_loop maps (rs @ [r]) =
     (case fk_loop maps rs of Inl e \<Rightarrow> Inl e | Inr maps' \<Rightarrow> fk_step maps' r)"
  by (induction rs arbitrary: maps) (auto split: sum.splits)

lemma fk_fold_grouped:
  "fk_fold rs =
     Inr (grouped CONSTRAINT_NAME new_outbound add_outbound_column rs,
          grouped inbound_key new_inbound add_inbound_column rs)"
proof (induction rs rule: rev_induct)
  case Nil
  show ?case by (simp add: fk_fold_def grouped_def first_keys_def)
next
  case (snoc r rs)
  then show ?case
    by (simp add: fk_fold_def fk_loop_snoc fk_step_grp grp_step_grouped)
qed

lemma index_fold_grouped:
  "index_fold rs = Inr (grouped idx_name_of new_index add_index_column rs)"
  by (simp add: index_fold_def index_loop_grp grp_loop_grouped)

lemma foldl_add_index_column:
  "foldl (\<lambda>v r. add_index_column r v) d rs = d\<lparr>ix_columns := ix_columns d @ map index_entry rs\<rparr>"
  by (induction rs arbitrary: d) (simp_all add: add_index_column_def)

lemma foldl_add_outbound_column:
  "foldl (\<lambda>v r. add_outbound_column r v) d rs = d\<lparr>ob_columns := ob_columns d @ map fk_entry rs\<rparr>"
  by (induction rs arbitrary: d) (simp_all add: add_outbound_column_def)

lemma foldl_add_inbound_column:
  "foldl (\<lambda>v r. add_inbound_column r v) d rs = d\<lparr>ib_columns := ib_columns d @ map fk_entry rs\<rparr>"
  by (induction rs arbitrary: d) (simp_all add: add_inbound_column_def)

lemma find_rows_of:
  "k \<in> key ` set rs \<Longrightarrow> find (\<lambda>r. key r = k) rs = Some (hd (rows_of key k rs))"
  by (induction rs) (auto simp: rows_of_def)

lemma key_hd_rows_of: "k \<in> key ` set rs \<Longrightarrow> key (hd (rows_of key k rs)) = k"
  by (induction rs) (auto simp: rows_of_def)

lemma hd_rows_of_in: "k \<in> key ` set rs \<Longrightarrow> hd (rows_of key k rs) \<in> set rs"
  by (induction rs) (auto simp: rows_of_def)

lemma in_grouped_iff:
  "(k, d) \<in> set (grouped key new add rs) \<longleftrightarrow>
     k \<in> key ` set rs \<and>
     d = foldl (\<lambda>v r. add r v) (new (hd (rows_of key k rs))) (rows_of key k rs)"
  by (auto simp: grouped_def set_first_keys)

lemma distinct_grouped: "distinct (map fst (grouped key new add rs))"
  by (simp add: map_fst_grouped distinct_first_keys)

lemma sum_list_rows_of:
  "distinct ks \<Longrightarrow> key ` set rs \<subseteq> set ks \<Longrightarrow>
     sum_list (map (\<lambda>k. length (rows_of key k rs)) ks) = length rs"
proof (induction rs)
  case Nil
  show ?case by (simp add: rows_of_def)
next
  case (Cons r rs)
  have "sum_list (map (\<lambda>k. length (rows_of key k (r # rs))) ks)
        = sum_list (map (\<lambda>k. (if k = key r then 1 else 0) + length (rows_of key k rs)) ks)"
    by (intro arg_cong[where f = sum_list] map_cong) (auto simp: rows_of_def)
  also have "\<dots> = sum_list (map (\<lambda>k. if k = key r then 1 else 0) ks)
                 + sum_list (map (\<lambda>k. length (rows_of key k rs)) ks)"
    by (simp add: sum_list_addf)
  also have "sum_list (map (\<lambda>k. if k = key r then 1 else 0) ks) = (1::nat)"
    using Cons.prems by (simp add: sum_list_distinct_conv_sum_set)
  finally show ?case using Cons by simp
qed

lemma sum_columns_grouped:
  assumes "\<And>k. k \<in> key ` set rs \<Longrightarrow>
             len (foldl (\<lambda>v r. add r v) (new (hd (rows_of key k rs))) (rows_of key k rs))
               = length (rows_of key k rs)"
  shows "sum_list (map len (od_values (grouped key new add rs))) = length rs"
proof -
  have "map len (od_values (grouped key new add rs))
        = map (\<lambda>k. length (rows_of key k rs)) (first_keys (map key rs))"
    using assms by (simp add: od_values_def grouped_def o_def set_first_keys)
  then show ?thesis
    by (simp add: sum_list_rows_of distinct_first_keys set_first_keys)
qed

lemma in_index_grouped:
  "(k, d) \<in> set (grouped idx_name_of new_index add_index_column rs) \<longleftrightarrow>
     k \<in> idx_name_of ` set rs \<and>
     d = \<lparr>ix_name = k,
          is_primary_or_unique = (IS_PRIMARY_OR_UNIQUE (hd (rows_of idx_name_of k rs)) \<noteq> 0),
          ix_columns = map index_entry (rows_of idx_name_of k rs)\<rparr>"
  by (auto simp: in_grouped_iff foldl_add_index_column new_index_def key_hd_rows_of)

lemma in_outbound_grouped:
  "(k, d) \<in> set (grouped CONSTRAINT_NAME new_outbound add_outbound_column rs) \<longleftrightarrow>
     k \<in> CONSTRAINT_NAME ` set rs \<and>
     d = \<lparr>ob_name = k,
          target_schema = REFERENCED_TABLE_SCHEMA (hd (rows_of CONSTRAINT_NAME k rs)),
          target_table = REFERENCED_TABLE_NAME (hd (rows_of CONSTRAINT_NAME k rs)),
          ob_columns = map fk_entry (rows_of CONSTRAINT_NAME k rs)\<rparr>"
  by (auto simp: in_grouped_iff foldl_add_outbound_column new_outbound_def key_hd_rows_of)

lemma in_inbound_grouped:
  "(k, d) \<in> set (grouped inbound_key new_inbound add_inbound_column rs) \<longleftrightarrow>
     k \<in> inbound_key ` set rs \<and>
     d = \<lparr>ib_name = CONSTRAINT_NAME (hd (rows_of inbound_key k rs)),
          source_schema = TABLE_SCHEMA (hd (rows_of inbound_key k rs)),
          source_table = TABLE_NAME (hd (rows_of inbound_key k rs)),
          ib_columns = map fk_entry (rows_of inbound_key k rs)\<rparr>"
  by (auto simp: in_grouped_iff foldl_add_inbound_column new_inbound_def)

lemma sum_outbound_columns:
  "sum_list (map (\<lambda>d. length (ob_columns d))
      (od_values (grouped CONSTRAINT_NAME new_outbound add_outbound_column rs))) = length rs"
  by (rule sum_columns_grouped) (simp add: foldl_add_outbound_column new_outbound_def)

lemma sum_inbound_columns:
  "sum_list (map (\<lambda>d. length (ib_columns d))
      (od_values (grouped inbound_key new_inbound add_inbound_column rs))) = length rs"
  by (rule sum_columns_grouped) (simp add: foldl_add_inbound_column new_inbound_def)

lemma rows_of_append: "rows_of key k (xs @ ys) = rows_of key k xs @ rows_of key k ys"
  by (simp add: rows_of_def)

lemma fst_set_grouped: "fst ` set (grouped key new add rs) = key ` set rs"
  using map_fst_grouped[of key new add rs] set_first_keys[of "map key rs"]
  by (metis list.set_map)

lemma filter_eq_distinct:
  "distinct ks \<Longrightarrow> filter (\<lambda>k. k = u) ks = (if u \<in> set ks then [u] else [])"
  by (induction ks) auto

lemma od_values_index_grouped:
  "od_values (grouped idx_name_of new_index add_index_column rs) =
     map (\<lambda>k. \<lparr>ix_name = k,
          is_primary_or_unique = (IS_PRIMARY_OR_UNIQUE (hd (rows_of idx_name_of k rs)) \<noteq> 0),
          ix_columns = map index_entry (rows_of idx_name_of k rs)\<rparr>)
       (first_keys (map idx_name_of rs))"
  by (simp add: od_values_def grouped_def o_def foldl_add_index_column new_index_def
      key_hd_rows_of set_first_keys)

lemma map_of_grouped_snoc:
  assumes "map_of (grouped key new add rs) (key r) = Some d"
  shows "map_of (grouped key new add (rs @ [r])) (key r) = Some (add r d)"
proof -
  from assms have k: "key r \<in> key ` set rs"
    and d: "d = foldl (\<lambda>v r. add r v) (new (hd (rows_of key (key r) rs))) (rows_of key (key r) rs)"
    by (auto simp: map_of_grouped split: if_splits)
  have ne: "rows_of key (key r) rs \<noteq> []"
    using k by (simp add: rows_of_empty_iff)
  have k': "key r \<in> key ` set (rs @ [r])"
    by simp
  show ?thesis
    unfolding map_of_grouped using k' ne by (simp add: d rows_of_snoc)
qed

lemma dot_split:
  "CHR ''.'' \<notin> set a \<Longrightarrow> CHR ''.'' \<notin> set a' \<Longrightarrow>
     a @ CHR ''.'' # x = a' @ CHR ''.'' # x' \<Longrightarrow> a = a' \<and> x = x'"
proof (induction a arbitrary: a')
  case Nil
  then show ?case by (cases a') auto
next
  case (Cons c a)
  then show ?case by (cases a') auto
qed

lemma inbound_key_eq_iff:
  assumes "REFERENCED_TABLE_SCHEMA r1 = Some s1" "REFERENCED_TABLE_NAME r1 = Some t1"
    "CONSTRAINT_NAME r1 = Some n1" "CHR ''.'' \<notin> set s1" "CHR ''.'' \<notin> set t1"
    and "REFERENCED_TABLE_SCHEMA r2 = Some s2" "REFERENCED_TABLE_NAME r2 = Some t2"
    "CONSTRAINT_NAME r2 = Some n2" "CHR ''.'' \<notin> set s2" "CHR ''.'' \<notin> set t2"
  shows "inbound_key r1 = inbound_key r2 \<longleftrightarrow> ref_triple r1 = ref_triple r2"
proof
  assume "inbound_key r1 = inbound_key r2"
  then have "s1 @ CHR ''.'' # (t1 @ CHR ''.'' # n1) = s2 @ CHR ''.'' # (t2 @ CHR ''.'' # n2)"
    using assms by (simp add: inbound_key_def py_str_def)
  with assms have "s1 = s2" and "t1 @ CHR ''.'' # n1 = t2 @ CHR ''.'' # n2"
    using dot_split by blast+
  with assms have "s1 = s2 \<and> t1 = t2 \<and> n1 = n2"
    using dot_split by blast
  with assms show "ref_triple r1 = ref_triple r2"
    by (simp add: ref_triple_def)
next
  assume "ref_triple r1 = ref_triple r2"
  then show "inbound_key r1 = inbound_key r2"
    by (simp add: ref_triple_def inbound_key_def)
qed

lemma filter_eq_replicate: "filter (\<lambda>x. k = x) xs = replicate (count (mset xs) k) k"
  by (induction xs) auto

lemma sort_key_mset_cong:
  assumes m: "mset xs = mset ys"
    and inj: "\<forall>x \<in> set xs. \<forall>y \<in> set xs. f x = f y \<longrightarrow> x = y"
  shows "sort_key f xs = sort_key f ys"
proof (rule properties_for_sort_key)
  show "mset (sort_key f ys) = mset xs"
    using m by simp
  show "sorted (map f (sort_key f ys))"
    by simp
  fix k assume "k \<in> set (sort_key f ys)"
  then have k: "k \<in> set xs"
    using m by (metis mset_eq_setD set_sort)
  have s: "set ys = set xs"
    using m by (metis mset_eq_setD)
  have "filter (\<lambda>x. f k = f x) (sort_key f ys) = filter (\<lambda>x. f k = f x) ys"
    using sort_key_stable[of f "f k" ys] by (simp add: eq_commute)
  also have "\<dots> = filter (\<lambda>x. k = x) ys"
    using inj k s by (intro filter_cong) auto
  also have "\<dots> = filter (\<lambda>x. k = x) xs"
    by (simp add: filter_eq_replicate m)
  also have "\<dots> = filter (\<lambda>x. f k = f x) xs"
    using inj k by (intro filter_cong) auto
  finally show "filter (\<lambda>x. f k = f x) (sort_key f ys) = filter (\<lambda>x. f k = f x) xs" .
qed

lemma sorted_descriptors_perm:
  assumes m: "mset a = mset b"
    and flags: "\<forall>r \<in> set a. \<forall>r' \<in> set a. idx_name_of r = idx_name_of r' \<longrightarrow>
        (IS_PRIMARY_OR_UNIQUE r \<noteq> 0) = (IS_PRIMARY_OR_UNIQUE r' \<noteq> 0)"
    and seqs: "\<forall>r \<in> set a. \<forall>r' \<in> set a.
        idx_name_of r = idx_name_of r' \<and> SEQ_IN_INDEX r = SEQ_IN_INDEX r' \<longrightarrow>
        IX_COLUMN_NAME r = IX_COLUMN_NAME r'"
  shows "set (map sort_columns (od_values (grouped idx_name_of new_index add_index_column a)))
       = set (map sort_columns (od_values (grouped idx_name_of new_index add_index_column b)))"
proof -
  have s: "set b = set a"
    using m by (metis mset_eq_setD)
  let ?G = "\<lambda>rs k. \<lparr>ix_name = k,
          is_primary_or_unique = (IS_PRIMARY_OR_UNIQUE (hd (rows_of idx_name_of k rs)) \<noteq> 0),
          ix_columns = map index_entry (rows_of idx_name_of k rs)\<rparr>"
  have eq: "sort_columns (?G a k) = sort_columns (?G b k)" if k: "k \<in> idx_name_of ` set a" for k
  proof -
    have ka: "hd (rows_of idx_name_of k a) \<in> set a" "idx_name_of (hd (rows_of idx_name_of k a)) = k"
      using k by (simp_all add: hd_rows_of_in key_hd_rows_of)
    have kb: "hd (rows_of idx_name_of k b) \<in> set a" "idx_name_of (hd (rows_of idx_name_of k b)) = k"
      using k s hd_rows_of_in[of k idx_name_of b] key_hd_rows_of[of k idx_name_of b] by simp_all
    have fl: "(IS_PRIMARY_OR_UNIQUE (hd (rows_of idx_name_of k a)) \<noteq> 0)
            = (IS_PRIMARY_OR_UNIQUE (hd (rows_of idx_name_of k b)) \<noteq> 0)"
      using flags ka kb by metis
    have ms: "mset (map index_entry (rows_of idx_name_of k a))
            = mset (map index_entry (rows_of idx_name_of k b))"
      by (simp add: rows_of_def m)
    have inj: "\<forall>x \<in> set (map index_entry (rows_of idx_name_of k a)).
               \<forall>y \<in> set (map index_entry (rows_of idx_name_of k a)).
                 ic_seq_in_index x = ic_seq_in_index y \<longrightarrow> x = y"
      using seqs by (auto simp: rows_of_def index_entry_def)
    have "sort_key ic_seq_in_index (map index_entry (rows_of idx_name_of k a))
        = sort_key ic_seq_in_index (map index_entry (rows_of idx_name_of k b))"
      using ms inj by (rule sort_key_mset_cong)
    with fl show ?thesis
      by (simp add: sort_columns_def)
  qed
  have "set (map sort_columns (od_values (grouped idx_name_of new_index add_index_column a)))
        = (\<lambda>k. sort_columns (?G a k)) ` (idx_name_of ` set a)"
    by (simp add: od_values_index_grouped set_first_keys image_image)
  also have "\<dots> = (\<lambda>k. sort_columns (?G b k)) ` (idx_name_of ` set a)"
    using eq by (intro image_cong) auto
  also have "\<dots> = set (map sort_columns (od_values (grouped idx_name_of new_index add_index_column b)))"
    by (simp add: od_values_index_grouped set_first_keys image_image s)
  finally show ?thesis .
qed

lemma sorted_snd_if_fst_const:
  "sorted (map (\<lambda>r. (a r, b r)) xs) \<Longrightarrow> \<forall>x \<in> set xs. a x = c \<Longrightarrow> sorted (map b xs)"
  by (induction xs) (auto simp: less_eq_prod_def)

lemma columns_of_sorted_rows:
  assumes names: "\<forall>r \<in> set rs. \<forall>r' \<in> set rs.
      idx_name_of r = idx_name_of r' \<longrightarrow> INDEX_NAME r = INDEX_NAME r'"
    and k: "k \<in> idx_name_of ` set rs"
  shows "sort_key ic_seq_in_index (map index_entry (rows_of idx_name_of k (sort_key name_seq rs)))
       = map index_entry (rows_of idx_name_of k (sort_key name_seq rs))"
proof -
  let ?s = "rows_of idx_name_of k (sort_key name_seq rs)"
  from k obtain r0 where r0: "r0 \<in> set rs" "idx_name_of r0 = k"
    by blast
  have c: "\<forall>x \<in> set ?s. INDEX_NAME x = INDEX_NAME r0"
  proof
    fix x assume "x \<in> set ?s"
    then have "x \<in> set rs" "idx_name_of x = k"
      by (simp_all add: rows_of_def)
    with names r0 show "INDEX_NAME x = INDEX_NAME r0"
      by blast
  qed
  have "sorted (map name_seq ?s)"
    unfolding rows_of_def by (rule sorted_filter) simp
  then have "sorted (map (\<lambda>r. (INDEX_NAME r, SEQ_IN_INDEX r)) ?s)"
    by (simp add: name_seq_def[abs_def])
  then have "sorted (map SEQ_IN_INDEX ?s)"
    using c by (rule sorted_snd_if_fst_const)
  then have "sorted (map ic_seq_in_index (map index_entry ?s))"
    by (simp add: o_def index_entry_def)
  then show ?thesis
    by (rule sort_key_id_if_sorted)
qed

lemma sorted_rows_descriptors:
  assumes names: "\<forall>r \<in> set rs. \<forall>r' \<in> set rs.
      idx_name_of r = idx_name_of r' \<longrightarrow> INDEX_NAME r = INDEX_NAME r'"
  shows "map sort_columns (od_values (grouped idx_name_of new_index add_index_column
            (sort_key name_seq rs)))
       = od_values (grouped idx_name_of new_index add_index_column (sort_key name_seq rs))"
  unfolding od_values_index_grouped map_map
  using columns_of_sorted_rows[OF names]
  by (intro map_cong) (auto simp: sort_columns_def set_first_keys)

text \<open>The equations that evaluate the folds on given rows.\<close>

lemmas fold_eval =
  fk_fold_def fk_step_def index_fold_def index_step_def Let_def
  od_contains_def od_setitem_def od_getitem_def od_values_def
  new_outbound_def new_inbound_def add_outbound_column_def add_inbound_column_def
  new_index_def add_index_column_def index_entry_def idx_name_of_def
  fk_entry_def inbound_key_def py_str_def

section \<open>Traces of the tools\<close>

lemma with_conn_trace:
  "fst (with_conn None cl body) = GetConn # fst body @ [ConnClose]"
  by (simp add: with_conn_def try_finally_close_def split: prod.splits)

lemma with_conn_result:
  "snd (with_conn None None body) = snd body"
  by (simp add: with_conn_def try_finally_close_def split: prod.splits)

lemma with_cursor_no_close:
  "ConnClose \<notin> set (fst body) \<Longrightarrow> ConnClose \<notin> set (fst (with_cursor cur ex body))"
  by (cases body) (simp add: with_cursor_def split: option.splits)

lemma with_cursor_ok:
  "with_cursor None None body = (CursorOpen # fst body @ [CursorClose], snd body)"
  by (simp add: with_cursor_def split: prod.splits)

lemma run_query_body_no_close: "ConnClose \<notin> set (fst (run_query_body s sql))"
  by (simp add: run_query_body_def split: option.splits sum.splits)

lemma describe_table_body_no_close:
  "ConnClose \<notin> set (fst (describe_table_body s schema table_name))"
  by (simp add: describe_table_body_def split: option.splits sum.splits)

lemma describe_indexes_body_no_close:
  "ConnClose \<notin> set (fst (describe_indexes_body s schema table_name))"
  by (simp add: describe_indexes_body_def split: option.splits sum.splits)

lemma fst_case_prod_run: "fst (case r of (tr, res) \<Rightarrow> (tr, f res)) = fst r"
  by (cases r) simp

lemmas tool_eval =
  run_query_def describe_table_def describe_indexes_and_foreign_keys_def
  with_conn_def try_finally_close_def with_cursor_def
  run_query_body_def describe_table_body_def describe_indexes_body_def
  has_result_set_def relations_of_def describe_column_def

section \<open>The properties of the specification\<close>

text \<open>
  \<^bold>\<open>C1.\<close> Whatever rows the key-usage query returns, the foreign-key fold raises nothing,
  and every row puts exactly one \<open>{column, references}\<close> entry into exactly one outbound
  descriptor and one into exactly one inbound descriptor: the keys of each dictionary are
  distinct, every row's key is among them, the descriptor under a key holds the entries of
  exactly the rows with that key, in input order, and so the column entries of all
  outbound descriptors together are as many as the rows, and likewise for the inbound
  descriptors.
\<close>

theorem fk_fold_one_entry_per_row:
  "\<exists>outbound inbound.
     fk_fold fk_rows = Inr (outbound, inbound)
     \<and> distinct (map fst outbound)
     \<and> distinct (map fst inbound)
     \<and> (\<forall>row \<in> set fk_rows.
           CONSTRAINT_NAME row \<in> fst ` set outbound \<and> inbound_key row \<in> fst ` set inbound)
     \<and> (\<forall>(k, d) \<in> set outbound.
           ob_columns d = map fk_entry (filter (\<lambda>r. CONSTRAINT_NAME r = k) fk_rows))
     \<and> (\<forall>(k, d) \<in> set inbound.
           ib_columns d = map fk_entry (filter (\<lambda>r. inbound_key r = k) fk_rows))
     \<and> sum_list (map (\<lambda>d. length (ob_columns d)) (od_values outbound)) = length fk_rows
     \<and> sum_list (map (\<lambda>d. length (ib_columns d)) (od_values inbound)) = length fk_rows"
proof -
  let ?out = "grouped CONSTRAINT_NAME new_outbound add_outbound_column fk_rows"
  let ?inb = "grouped inbound_key new_inbound add_inbound_column fk_rows"
  have "fk_fold fk_rows = Inr (?out, ?inb)"
    by (rule fk_fold_grouped)
  moreover have "distinct (map fst ?out)" "distinct (map fst ?inb)"
    by (rule distinct_grouped)+
  moreover have "\<forall>row \<in> set fk_rows.
      CONSTRAINT_NAME row \<in> fst ` set ?out \<and> inbound_key row \<in> fst ` set ?inb"
    using map_fst_grouped[of CONSTRAINT_NAME new_outbound add_outbound_column fk_rows]
      map_fst_grouped[of inbound_key new_inbound add_inbound_column fk_rows]
    by (metis (no_types, lifting) image_eqI list.set_map set_first_keys)
  moreover have "\<forall>(k, d) \<in> set ?out.
      ob_columns d = map fk_entry (filter (\<lambda>r. CONSTRAINT_NAME r = k) fk_rows)"
    by (auto simp: in_outbound_grouped rows_of_def)
  moreover have "\<forall>(k, d) \<in> set ?inb.
      ib_columns d = map fk_entry (filter (\<lambda>r. inbound_key r = k) fk_rows)"
    by (auto simp: in_inbound_grouped rows_of_def)
  moreover note sum_outbound_columns[of fk_rows] sum_inbound_columns[of fk_rows]
  ultimately show ?thesis by blast
qed

theorem fk_fold_one_entry_per_row_witness:
  "fk_fold
     [\<lparr>CONSTRAINT_NAME = Some ''fk_a'', TABLE_SCHEMA = Some ''app'', TABLE_NAME = Some ''child'',
       FK_COLUMN_NAME = Some ''p1'', REFERENCED_TABLE_SCHEMA = Some ''app'',
       REFERENCED_TABLE_NAME = Some ''parent'', REFERENCED_COLUMN_NAME = Some ''k1''\<rparr>,
      \<lparr>CONSTRAINT_NAME = Some ''fk_a'', TABLE_SCHEMA = Some ''app'', TABLE_NAME = Some ''child'',
       FK_COLUMN_NAME = Some ''p2'', REFERENCED_TABLE_SCHEMA = Some ''app'',
       REFERENCED_TABLE_NAME = Some ''parent'', REFERENCED_COLUMN_NAME = Some ''k2''\<rparr>,
      \<lparr>CONSTRAINT_NAME = Some ''fk_b'', TABLE_SCHEMA = Some ''app'', TABLE_NAME = Some ''child'',
       FK_COLUMN_NAME = Some ''o'', REFERENCED_TABLE_SCHEMA = Some ''app'',
       REFERENCED_TABLE_NAME = Some ''owner'', REFERENCED_COLUMN_NAME = Some ''id''\<rparr>]
   = Inr ([(Some ''fk_a'',
            \<lparr>ob_name = Some ''fk_a'', target_schema = Some ''app'', target_table = Some ''parent'',
             ob_columns = [\<lparr>fc_column = Some ''p1'', fc_references = Some ''k1''\<rparr>,
                           \<lparr>fc_column = Some ''p2'', fc_references = Some ''k2''\<rparr>]\<rparr>),
           (Some ''fk_b'',
            \<lparr>ob_name = Some ''fk_b'', target_schema = Some ''app'', target_table = Some ''owner'',
             ob_columns = [\<lparr>fc_column = Some ''o'', fc_references = Some ''id''\<rparr>]\<rparr>)],
          [(''app.parent.fk_a'',
            \<lparr>ib_name = Some ''fk_a'', source_schema = Some ''app'', source_table = Some ''child'',
             ib_columns = [\<lparr>fc_column = Some ''p1'', fc_references = Some ''k1''\<rparr>,
                           \<lparr>fc_column = Some ''p2'', fc_references = Some ''k2''\<rparr>]\<rparr>),
           (''app.owner.fk_b'',
            \<lparr>ib_name = Some ''fk_b'', source_schema = Some ''app'', source_table = Some ''child'',
             ib_columns = [\<lparr>fc_column = Some ''o'', fc_references = Some ''id''\<rparr>]\<rparr>)])
   \<and> sum_list (map (\<lambda>d. length (ob_columns d)) (od_values
          [(Some ''fk_a'',
            \<lparr>ob_name = Some ''fk_a'', target_schema = Some ''app'', target_table = Some ''parent'',
             ob_columns = [\<lparr>fc_column = Some ''p1'', fc_references = Some ''k1''\<rparr>,
                           \<lparr>fc_column = Some ''p2'', fc_references = Some ''k2''\<rparr>]\<rparr>),
           (Some ''fk_b'',
            \<lparr>ob_name = Some ''fk_b'', target_schema = Some ''app'', target_table = Some ''owner'',
             ob_columns = [\<lparr>fc_column = Some ''o'', fc_references = Some ''id''\<rparr>]\<rparr>)])) = 3"
  (is "fk_fold ?rows = Inr (?out, ?inb) \<and> ?sum = 3")
proof -
  have e: "fk_fold ?rows = Inr (?out, ?inb)"
    by (simp add: fold_eval)
  from fk_fold_one_entry_per_row[of ?rows] obtain outbound inbound
    where f: "fk_fold ?rows = Inr (outbound, inbound)"
      and s: "sum_list (map (\<lambda>d. length (ob_columns d)) (od_values outbound)) = length ?rows"
    by blast
  from f e have "outbound = ?out"
    by simp
  with s have s3: "?sum = 3"
    by simp
  show ?thesis
    by (rule conjI[OF e s3])
qed

text \<open>
  \<^bold>\<open>C3.\<close> The index fold raises nothing and builds one descriptor per distinct index-name
  key: the keys are distinct and are the names that occur, the descriptor under a name
  carries that name and the column entries of all rows of that name, its
  \<open>is_primary_or_unique\<close> is the truth value of the flag of the first row of that name, and
  whatever rows come later the descriptor of that name still has the same flag.
\<close>

theorem index_fold_one_descriptor_per_name:
  "\<exists>ixs ixs'.
     index_fold idx_rows = Inr ixs
     \<and> index_fold (idx_rows @ later) = Inr ixs'
     \<and> distinct (map fst ixs)
     \<and> fst ` set ixs = idx_name_of ` set idx_rows
     \<and> (\<forall>(k, d) \<in> set ixs.
           ix_name d = k
           \<and> ix_columns d = map index_entry (filter (\<lambda>r. idx_name_of r = k) idx_rows)
           \<and> (\<exists>r0. find (\<lambda>r. idx_name_of r = k) idx_rows = Some r0
                 \<and> is_primary_or_unique d = (IS_PRIMARY_OR_UNIQUE r0 \<noteq> 0))
           \<and> (\<exists>d'. map_of ixs' k = Some d'
                 \<and> is_primary_or_unique d' = is_primary_or_unique d))"
proof -
  let ?g = "grouped idx_name_of new_index add_index_column"
  have a: "index_fold idx_rows = Inr (?g idx_rows)"
    and b: "index_fold (idx_rows @ later) = Inr (?g (idx_rows @ later))"
    by (rule index_fold_grouped)+
  have c: "distinct (map fst (?g idx_rows))"
    by (rule distinct_grouped)
  have d: "fst ` set (?g idx_rows) = idx_name_of ` set idx_rows"
    by (rule fst_set_grouped)
  have e: "ix_name v = k
           \<and> ix_columns v = map index_entry (filter (\<lambda>r. idx_name_of r = k) idx_rows)
           \<and> (\<exists>r0. find (\<lambda>r. idx_name_of r = k) idx_rows = Some r0
                 \<and> is_primary_or_unique v = (IS_PRIMARY_OR_UNIQUE r0 \<noteq> 0))
           \<and> (\<exists>d'. map_of (?g (idx_rows @ later)) k = Some d'
                 \<and> is_primary_or_unique d' = is_primary_or_unique v)"
    if kv: "(k, v) \<in> set (?g idx_rows)" for k v
  proof -
    from kv have k: "k \<in> idx_name_of ` set idx_rows"
      and v: "v = \<lparr>ix_name = k,
          is_primary_or_unique = (IS_PRIMARY_OR_UNIQUE (hd (rows_of idx_name_of k idx_rows)) \<noteq> 0),
          ix_columns = map index_entry (rows_of idx_name_of k idx_rows)\<rparr>"
      by (simp_all add: in_index_grouped)
    have ne: "rows_of idx_name_of k idx_rows \<noteq> []"
      using k by (simp add: rows_of_empty_iff)
    have f: "find (\<lambda>r. idx_name_of r = k) idx_rows = Some (hd (rows_of idx_name_of k idx_rows))"
      using k by (rule find_rows_of)
    have k': "k \<in> idx_name_of ` set (idx_rows @ later)"
      using k by auto
    have m: "map_of (?g (idx_rows @ later)) k
             = Some (foldl (\<lambda>v r. add_index_column r v)
                  (new_index (hd (rows_of idx_name_of k (idx_rows @ later))))
                  (rows_of idx_name_of k (idx_rows @ later)))"
      using k' by (simp only: map_of_grouped if_True)
    have h: "hd (rows_of idx_name_of k (idx_rows @ later)) = hd (rows_of idx_name_of k idx_rows)"
      using ne by (simp add: rows_of_append)
    have m': "\<exists>d'. map_of (?g (idx_rows @ later)) k = Some d'
                 \<and> is_primary_or_unique d' = is_primary_or_unique v"
      unfolding m h by (simp add: v foldl_add_index_column new_index_def)
    show ?thesis
      using f m' by (simp add: v rows_of_def)
  qed
  show ?thesis
    using a b c d e by blast
qed

theorem index_fold_one_descriptor_per_name_witness:
  "index_fold
     [\<lparr>INDEX_NAME = Some ''PRIMARY'', IS_PRIMARY_OR_UNIQUE = 1, SEQ_IN_INDEX = 1,
       IX_COLUMN_NAME = Some ''id''\<rparr>,
      \<lparr>INDEX_NAME = Some ''ix_ab'', IS_PRIMARY_OR_UNIQUE = 0, SEQ_IN_INDEX = 1,
       IX_COLUMN_NAME = Some ''a''\<rparr>,
      \<lparr>INDEX_NAME = Some ''ix_ab'', IS_PRIMARY_OR_UNIQUE = 1, SEQ_IN_INDEX = 2,
       IX_COLUMN_NAME = Some ''b''\<rparr>]
   = Inr [(''PRIMARY'',
           \<lparr>ix_name = ''PRIMARY'', is_primary_or_unique = True,
            ix_columns = [\<lparr>ic_name = Some ''id'', ic_seq_in_index = 1\<rparr>]\<rparr>),
          (''ix_ab'',
           \<lparr>ix_name = ''ix_ab'', is_primary_or_unique = False,
            ix_columns = [\<lparr>ic_name = Some ''a'', ic_seq_in_index = 1\<rparr>,
                          \<lparr>ic_name = Some ''b'', ic_seq_in_index = 2\<rparr>]\<rparr>)]
   \<and> (\<exists>ixs' d'.
         index_fold
           ([\<lparr>INDEX_NAME = Some ''PRIMARY'', IS_PRIMARY_OR_UNIQUE = 1, SEQ_IN_INDEX = 1,
              IX_COLUMN_NAME = Some ''id''\<rparr>,
             \<lparr>INDEX_NAME = Some ''ix_ab'', IS_PRIMARY_OR_UNIQUE = 0, SEQ_IN_INDEX = 1,
              IX_COLUMN_NAME = Some ''a''\<rparr>,
             \<lparr>INDEX_NAME = Some ''ix_ab'', IS_PRIMARY_OR_UNIQUE = 1, SEQ_IN_INDEX = 2,
              IX_COLUMN_NAME = Some ''b''\<rparr>]
            @ [\<lparr>INDEX_NAME = Some ''ix_ab'', IS_PRIMARY_OR_UNIQUE = 1, SEQ_IN_INDEX = 3,
                IX_COLUMN_NAME = Some ''c''\<rparr>]) = Inr ixs'
         \<and> map_of ixs' ''ix_ab'' = Some d' \<and> \<not> is_primary_or_unique d')"
  (is "index_fold ?rows = Inr ?ixs \<and> ?later_claim")
proof -
  have e: "index_fold ?rows = Inr ?ixs"
    by (simp add: fold_eval)
  let ?later = "[\<lparr>INDEX_NAME = Some ''ix_ab'', IS_PRIMARY_OR_UNIQUE = 1, SEQ_IN_INDEX = 3,
                IX_COLUMN_NAME = Some ''c''\<rparr>]"
  have gen: "\<exists>ixs ixs'. index_fold rs = Inr ixs \<and> index_fold (rs @ ls) = Inr ixs'
      \<and> (\<forall>(k, d) \<in> set ixs. \<exists>d'. map_of ixs' k = Some d'
                 \<and> is_primary_or_unique d' = is_primary_or_unique d)" for rs ls
    using index_fold_one_descriptor_per_name[of rs ls] by fast
  from gen[of ?rows ?later] obtain ixs ixs'
    where f: "index_fold ?rows = Inr ixs"
      and g: "index_fold (?rows @ ?later) = Inr ixs'"
      and h: "\<forall>(k, d) \<in> set ixs. \<exists>d'. map_of ixs' k = Some d'
                 \<and> is_primary_or_unique d' = is_primary_or_unique d"
    by (elim exE conjE) (rule that)
  from f e have i: "ixs = ?ixs"
    by simp
  have "(''ix_ab'',
           \<lparr>ix_name = ''ix_ab'', is_primary_or_unique = False,
            ix_columns = [\<lparr>ic_name = Some ''a'', ic_seq_in_index = 1\<rparr>,
                          \<lparr>ic_name = Some ''b'', ic_seq_in_index = 2\<rparr>]\<rparr>) \<in> set ixs"
    unfolding i by simp
  with h obtain d' where "map_of ixs' ''ix_ab'' = Some d'" "\<not> is_primary_or_unique d'"
    by fastforce
  with g have l: ?later_claim
    by blast
  show ?thesis
    by (rule conjI[OF e l])
qed

text \<open>
  \<^bold>\<open>C5.\<close> A row whose index name is \<^verbatim>\<open>None\<close> or empty gets the key \<^verbatim>\<open>"(unnamed)"\<close>, and
  the result of the index fold holds at most one descriptor of that name: none when no row
  has that key, and otherwise exactly one, whose columns are the entries of all rows with
  that key in input order, whichever unnamed index each row came from.
\<close>

theorem unnamed_rows_share_one_descriptor:
  "(\<forall>r \<in> set idx_rows.
      INDEX_NAME r = None \<or> INDEX_NAME r = Some [] \<longrightarrow> idx_name_of r = ''(unnamed)'')
   \<and> (\<exists>ixs. index_fold idx_rows = Inr ixs
        \<and> (case find (\<lambda>r. idx_name_of r = ''(unnamed)'') idx_rows of
              None \<Rightarrow> filter (\<lambda>d. ix_name d = ''(unnamed)'') (od_values ixs) = []
            | Some r0 \<Rightarrow>
                filter (\<lambda>d. ix_name d = ''(unnamed)'') (od_values ixs) =
                  [\<lparr>ix_name = ''(unnamed)'',
                    is_primary_or_unique = (IS_PRIMARY_OR_UNIQUE r0 \<noteq> 0),
                    ix_columns =
                      map index_entry (filter (\<lambda>r. idx_name_of r = ''(unnamed)'') idx_rows)\<rparr>]))"
proof -
  let ?u = "''(unnamed)''"
  let ?g = "grouped idx_name_of new_index add_index_column idx_rows"
  have n: "\<forall>r \<in> set idx_rows.
      INDEX_NAME r = None \<or> INDEX_NAME r = Some [] \<longrightarrow> idx_name_of r = ?u"
    by (auto simp: idx_name_of_def)
  have a: "index_fold idx_rows = Inr ?g"
    by (rule index_fold_grouped)
  have v: "filter (\<lambda>d. ix_name d = ?u) (od_values ?g) =
     map (\<lambda>k. \<lparr>ix_name = k,
          is_primary_or_unique = (IS_PRIMARY_OR_UNIQUE (hd (rows_of idx_name_of k idx_rows)) \<noteq> 0),
          ix_columns = map index_entry (rows_of idx_name_of k idx_rows)\<rparr>)
       (if ?u \<in> idx_name_of ` set idx_rows then [?u] else [])"
    unfolding od_values_index_grouped filter_map o_def
    using filter_eq_distinct[OF distinct_first_keys, of ?u "map idx_name_of idx_rows"]
    by (simp add: set_first_keys)
  have c: "(case find (\<lambda>r. idx_name_of r = ?u) idx_rows of
              None \<Rightarrow> filter (\<lambda>d. ix_name d = ?u) (od_values ?g) = []
            | Some r0 \<Rightarrow>
                filter (\<lambda>d. ix_name d = ?u) (od_values ?g) =
                  [\<lparr>ix_name = ?u,
                    is_primary_or_unique = (IS_PRIMARY_OR_UNIQUE r0 \<noteq> 0),
                    ix_columns = map index_entry (filter (\<lambda>r. idx_name_of r = ?u) idx_rows)\<rparr>])"
  proof (cases "?u \<in> idx_name_of ` set idx_rows")
    case True
    then have "find (\<lambda>r. idx_name_of r = ?u) idx_rows = Some (hd (rows_of idx_name_of ?u idx_rows))"
      by (rule find_rows_of)
    then show ?thesis
      using True by (simp add: v rows_of_def)
  next
    case False
    then have "find (\<lambda>r. idx_name_of r = ?u) idx_rows = None"
      by (force simp: find_None_iff)
    then show ?thesis
      using False by (simp add: v)
  qed
  show ?thesis
    using n a c by blast
qed

theorem unnamed_rows_share_one_descriptor_witness:
  "\<exists>ixs.
     index_fold
       [\<lparr>INDEX_NAME = None, IS_PRIMARY_OR_UNIQUE = 0, SEQ_IN_INDEX = 1,
         IX_COLUMN_NAME = Some ''a''\<rparr>,
        \<lparr>INDEX_NAME = Some ''ix_b'', IS_PRIMARY_OR_UNIQUE = 0, SEQ_IN_INDEX = 1,
         IX_COLUMN_NAME = Some ''b''\<rparr>,
        \<lparr>INDEX_NAME = Some [], IS_PRIMARY_OR_UNIQUE = 1, SEQ_IN_INDEX = 1,
         IX_COLUMN_NAME = Some ''c''\<rparr>] = Inr ixs
     \<and> filter (\<lambda>d. ix_name d = ''(unnamed)'') (od_values ixs) =
         [\<lparr>ix_name = ''(unnamed)'', is_primary_or_unique = False,
           ix_columns = [\<lparr>ic_name = Some ''a'', ic_seq_in_index = 1\<rparr>,
                         \<lparr>ic_name = Some ''c'', ic_seq_in_index = 1\<rparr>]\<rparr>]"
  (is "\<exists>ixs. index_fold ?rows = Inr ixs \<and> ?P ixs")
proof -
  have gen: "\<exists>ixs. index_fold rs = Inr ixs
        \<and> (case find (\<lambda>r. idx_name_of r = ''(unnamed)'') rs of
              None \<Rightarrow> filter (\<lambda>d. ix_name d = ''(unnamed)'') (od_values ixs) = []
            | Some r0 \<Rightarrow>
                filter (\<lambda>d. ix_name d = ''(unnamed)'') (od_values ixs) =
                  [\<lparr>ix_name = ''(unnamed)'',
                    is_primary_or_unique = (IS_PRIMARY_OR_UNIQUE r0 \<noteq> 0),
                    ix_columns =
                      map index_entry (filter (\<lambda>r. idx_name_of r = ''(unnamed)'') rs)\<rparr>])" for rs
    using unnamed_rows_share_one_descriptor[of rs] by (rule conjunct2)
  from gen[of ?rows] show ?thesis
    by (simp add: idx_name_of_def index_entry_def)
qed

text \<open>
  \<^bold>\<open>C6.\<close> When no driver call raises, \<^verbatim>\<open>run_query\<close> returns one of two results, told apart
  by the truth of \<^verbatim>\<open>cur.description\<close> after the execute. With a description that has
  columns it fetches all rows and returns \<^verbatim>\<open>{columns, rows}\<close>: the first components of the
  description's tuples in their order, and the rows of the dictionary cursor (maps from
  column name to value) as fetched; it does not commit. With no description (\<^verbatim>\<open>None\<close>, or
  no columns) it calls \<^verbatim>\<open>conn.commit()\<close> and returns \<^verbatim>\<open>{rows_affected}\<close> with the cursor's
  \<^verbatim>\<open>rowcount\<close>.
\<close>

theorem run_query_result_shapes:
  assumes "get_conn_res s = None" and "cursor_res s = None" and "execute_res s = None"
    and "cursor_exit_res s = None" and "close_res s = None"
  shows "(\<forall>cols rs. description s = Some cols \<and> cols \<noteq> [] \<and> fetchall_res s = Inr rs \<longrightarrow>
            run_query s sql =
              ([GetConn, CursorOpen, Execute (Sql sql) [], FetchAll, CursorClose, ConnClose],
               Inr (Rows (map fst cols) rs)))
       \<and> ((description s = None \<or> description s = Some []) \<and> commit_res s = None \<longrightarrow>
            run_query s sql =
              ([GetConn, CursorOpen, Execute (Sql sql) [], Commit, CursorClose, ConnClose],
               Inr (RowsAffected (rowcount s))))"
  using assms
  by (auto simp: run_query_def with_conn_def try_finally_close_def with_cursor_def
      run_query_body_def has_result_set_def)

theorem run_query_result_shapes_witness:
  "run_query
     \<lparr>get_conn_res = None, cursor_res = None, cursor_exit_res = None, close_res = None,
      execute_res = None, description = Some [(''x'', ())],
      fetchall_res = Inr [[''x'' \<mapsto> (1::int)]], commit_res = None, rowcount = - 1\<rparr>
     ''SELECT 1 AS x''
   = ([GetConn, CursorOpen, Execute (Sql ''SELECT 1 AS x'') [], FetchAll, CursorClose, ConnClose],
      Inr (Rows [''x''] [[''x'' \<mapsto> 1]]))
   \<and> run_query
     \<lparr>get_conn_res = None, cursor_res = None, cursor_exit_res = None, close_res = None,
      execute_res = None, description = (None :: (string \<times> unit) list option),
      fetchall_res = (Inl (DbError ''No result set to fetch from'') :: error + (string \<rightharpoonup> int) list),
      commit_res = None, rowcount = 0\<rparr>
     ''UPDATE t SET c=1 WHERE id=999''
   = ([GetConn, CursorOpen, Execute (Sql ''UPDATE t SET c=1 WHERE id=999'') [], Commit,
       CursorClose, ConnClose],
      Inr (RowsAffected 0))"
  (is "run_query ?a ?sa = _ \<and> run_query ?b ?sb = _")
  using run_query_result_shapes[of ?a ?sa] run_query_result_shapes[of ?b ?sb]
  by simp

text \<open>
  \<^bold>\<open>C7.\<close> When the catalog has no row for the table (every fetch returns the empty list and
  no driver call raises), \<^verbatim>\<open>describe_table\<close> returns the empty list and
  \<^verbatim>\<open>describe_indexes_and_foreign_keys\<close> returns three empty lists; neither raises.
\<close>

theorem empty_catalog_gives_empty_lists:
  "(get_conn_res c = None \<and> cursor_res c = None \<and> col_execute_res c = None
      \<and> col_fetchall_res c = Inr [] \<and> cursor_exit_res c = None \<and> close_res c = None \<longrightarrow>
      snd (describe_table c schema table_name) = Inr [])
   \<and> (get_conn_res i = None \<and> cursor_res i = None \<and> idx_execute_res i = None
      \<and> idx_fetchall_res i = Inr [] \<and> fk_execute_res i = None \<and> fk_fetchall_res i = Inr []
      \<and> cursor_exit_res i = None \<and> close_res i = None \<longrightarrow>
      snd (describe_indexes_and_foreign_keys i schema table_name) =
        Inr \<lparr>indexes = [], foreign_keys_outbound = [], foreign_keys_inbound = []\<rparr>)"
  by (simp add: describe_table_def describe_indexes_and_foreign_keys_def with_conn_def
      try_finally_close_def with_cursor_def describe_table_body_def describe_indexes_body_def
      index_fold_def fk_fold_def relations_of_def od_values_def)

theorem empty_catalog_gives_empty_lists_witness:
  "snd (describe_table
     \<lparr>get_conn_res = None, cursor_res = None, cursor_exit_res = None, close_res = None,
      col_execute_res = None, col_fetchall_res = Inr []\<rparr> ''app'' ''missing'') = Inr []
   \<and> snd (describe_indexes_and_foreign_keys
     \<lparr>get_conn_res = None, cursor_res = None, cursor_exit_res = None, close_res = None,
      idx_execute_res = None, idx_fetchall_res = Inr [],
      fk_execute_res = None, fk_fetchall_res = Inr []\<rparr> ''app'' ''missing'')
     = Inr \<lparr>indexes = [], foreign_keys_outbound = [], foreign_keys_inbound = []\<rparr>"
  (is "snd (describe_table ?c ?s ?t) = _ \<and> snd (describe_indexes_and_foreign_keys ?i ?s ?t) = _")
  using empty_catalog_gives_empty_lists[of ?c ?s ?t ?i]
  by simp

text \<open>
  \<^bold>\<open>C8.\<close> Once \<^verbatim>\<open>get_conn()\<close> has returned, each of the three tools calls \<^verbatim>\<open>conn.close()\<close>
  exactly once, as its last driver call, whatever the other driver calls do: return,
  or raise in the cursor call, the execute, the fetch, the commit or the cursor's exit.
  The last conjunct says the same of the \<^verbatim>\<open>try ... finally\<close> itself for any body at
  all, whatever it returns or raises.
\<close>

theorem connection_closed_on_every_path:
  "(get_conn_res q = None \<longrightarrow>
      (\<exists>tr. fst (run_query q sql) = GetConn # tr @ [ConnClose] \<and> ConnClose \<notin> set tr))
   \<and> (get_conn_res c = None \<longrightarrow>
      (\<exists>tr. fst (describe_table c schema table_name) = GetConn # tr @ [ConnClose]
            \<and> ConnClose \<notin> set tr))
   \<and> (get_conn_res i = None \<longrightarrow>
      (\<exists>tr. fst (describe_indexes_and_foreign_keys i schema table_name)
              = GetConn # tr @ [ConnClose]
            \<and> ConnClose \<notin> set tr))
   \<and> fst (with_conn None cl body) = GetConn # fst body @ [ConnClose]"
proof (intro conjI impI)
  assume "get_conn_res q = None"
  then show "\<exists>tr. fst (run_query q sql) = GetConn # tr @ [ConnClose] \<and> ConnClose \<notin> set tr"
    by (simp add: run_query_def with_conn_trace with_cursor_no_close run_query_body_no_close)
next
  assume "get_conn_res c = None"
  then show "\<exists>tr. fst (describe_table c schema table_name) = GetConn # tr @ [ConnClose]
            \<and> ConnClose \<notin> set tr"
    by (simp add: describe_table_def with_conn_trace with_cursor_no_close
        describe_table_body_no_close)
next
  assume "get_conn_res i = None"
  then show "\<exists>tr. fst (describe_indexes_and_foreign_keys i schema table_name)
              = GetConn # tr @ [ConnClose] \<and> ConnClose \<notin> set tr"
    by (simp add: describe_indexes_and_foreign_keys_def with_conn_trace fst_case_prod_run
        with_cursor_no_close describe_indexes_body_no_close)
next
  show "fst (with_conn None cl body) = GetConn # fst body @ [ConnClose]"
    by (rule with_conn_trace)
qed

theorem connection_closed_on_every_path_witness:
  "run_query
     \<lparr>get_conn_res = None, cursor_res = None, cursor_exit_res = None, close_res = None,
      execute_res = Some (DbError ''syntax error''),
      description = (None :: (string \<times> unit) list option),
      fetchall_res = (Inr [] :: error + (string \<rightharpoonup> int) list),
      commit_res = None, rowcount = - 1\<rparr>
     ''SELEC 1''
   = ([GetConn, CursorOpen, Execute (Sql ''SELEC 1'') [], CursorClose, ConnClose],
      Inl (DbError ''syntax error''))
   \<and> describe_table
     \<lparr>get_conn_res = None, cursor_res = None, cursor_exit_res = None, close_res = None,
      col_execute_res = None, col_fetchall_res = Inl (DbError ''lost connection'')\<rparr>
     ''app'' ''t''
   = ([GetConn, CursorOpen, Execute ColumnQuery [''app'', ''t''], FetchAll, CursorClose, ConnClose],
      Inl (DbError ''lost connection''))
   \<and> describe_indexes_and_foreign_keys
     \<lparr>get_conn_res = None, cursor_res = None, cursor_exit_res = None, close_res = None,
      idx_execute_res = None, idx_fetchall_res = Inr [],
      fk_execute_res = Some (DbError ''access denied''), fk_fetchall_res = Inr []\<rparr>
     ''app'' ''t''
   = ([GetConn, CursorOpen, Execute IndexQuery [''app'', ''t''], FetchAll,
       Execute FkQuery [''app'', ''t''], CursorClose, ConnClose],
      Inl (DbError ''access denied''))"
  (is "run_query ?q ?sql = _ \<and> describe_table ?c ?s ?t = _
       \<and> describe_indexes_and_foreign_keys ?i ?s ?t = _")
  using connection_closed_on_every_path[of ?q ?sql ?c ?s ?t ?i]
  by (simp add: tool_eval index_fold_def)

text \<open>
  \<^bold>\<open>C10.\<close> \<^verbatim>\<open>run_query\<close> calls \<^verbatim>\<open>conn.commit()\<close> exactly when the connection and the cursor
  were obtained, the execute returned and \<^verbatim>\<open>cur.description\<close> is falsy, and then once; so
  neither a statement with a result set nor a statement whose execute raised is
  committed. Every pool that \<open>build_connection_pool\<close> configures has autocommit off.
\<close>

theorem commit_only_without_result_set:
  "(Commit \<in> set (fst (run_query s sql)) \<longleftrightarrow>
      get_conn_res s = None \<and> cursor_res s = None \<and> execute_res s = None
      \<and> \<not> has_result_set (description s))
   \<and> count_list (fst (run_query s sql)) Commit \<le> 1
   \<and> (\<forall>cfg. build_connection_pool py_int env = Inr cfg \<longrightarrow> \<not> autocommit cfg)"
proof (intro conjI)
  show "Commit \<in> set (fst (run_query s sql)) \<longleftrightarrow>
      get_conn_res s = None \<and> cursor_res s = None \<and> execute_res s = None
      \<and> \<not> has_result_set (description s)"
    by (auto simp: run_query_def with_conn_def try_finally_close_def with_cursor_def
        run_query_body_def split: option.splits sum.splits)
  show "count_list (fst (run_query s sql)) Commit \<le> 1"
    by (auto simp: run_query_def with_conn_def try_finally_close_def with_cursor_def
        run_query_body_def split: option.splits sum.splits)
  show "\<forall>cfg. build_connection_pool py_int env = Inr cfg \<longrightarrow> \<not> autocommit cfg"
    by (auto simp: build_connection_pool_def split: sum.splits option.splits)
qed

theorem commit_only_without_result_set_witness:
  "Commit \<in> set (fst (run_query
     \<lparr>get_conn_res = None, cursor_res = None, cursor_exit_res = None, close_res = None,
      execute_res = None, description = (None :: (string \<times> unit) list option),
      fetchall_res = (Inr [] :: error + (string \<rightharpoonup> int) list),
      commit_res = None, rowcount = 1\<rparr> ''DELETE FROM t''))
   \<and> Commit \<notin> set (fst (run_query
     \<lparr>get_conn_res = None, cursor_res = None, cursor_exit_res = None, close_res = None,
      execute_res = None, description = Some [(''x'', ())],
      fetchall_res = Inr [[''x'' \<mapsto> (1::int)]], commit_res = None, rowcount = - 1\<rparr>
     ''SELECT 1 AS x''))
   \<and> Commit \<notin> set (fst (run_query
     \<lparr>get_conn_res = None, cursor_res = None, cursor_exit_res = None, close_res = None,
      execute_res = Some (DbError ''duplicate key''),
      description = (None :: (string \<times> unit) list option),
      fetchall_res = (Inr [] :: error + (string \<rightharpoonup> int) list),
      commit_res = None, rowcount = - 1\<rparr> ''INSERT INTO t VALUES (1)''))
   \<and> build_connection_pool (\<lambda>s. if s = ''3306'' then Some 3306 else None)
        [''MYSQL_HOST'' \<mapsto> ''db'', ''MYSQL_USER'' \<mapsto> ''u'', ''MYSQL_PASSWORD'' \<mapsto> ''p'',
         ''MYSQL_DB'' \<mapsto> ''app'']
      = Inr \<lparr>pool_name = ''mcp_mysql_pool'', pool_size = 5, host = ''db'', user = ''u'',
             password = ''p'', database = ''app'', port = 3306, charset = ''utf8mb4'',
             autocommit = False\<rparr>"
  (is "Commit \<in> set (fst (run_query ?a ?sa)) \<and> Commit \<notin> set (fst (run_query ?b ?sb))
       \<and> Commit \<notin> set (fst (run_query ?c ?sc)) \<and> build_connection_pool ?f ?env = _")
  using commit_only_without_result_set[of ?a ?sa ?f ?env]
    commit_only_without_result_set[of ?b ?sb ?f ?env]
    commit_only_without_result_set[of ?c ?sc ?f ?env]
  by (simp add: has_result_set_def build_connection_pool_def environ_get_def)

text \<open>
  \<^bold>\<open>C9.\<close> In the result of the foreign-key fold the \<open>name\<close>, \<open>target_schema\<close> and
  \<open>target_table\<close> of an outbound descriptor are those of the first row with its constraint
  name, and the \<open>name\<close>, \<open>source_schema\<close> and \<open>source_table\<close> of an inbound descriptor those
  of the first row with its key. A further row whose key is already present, whatever
  its referenced schema and table, leaves the descriptor under that key as it was but for
  one more entry at the end of its columns.
\<close>

theorem fk_descriptor_fields_from_first_row:
  "\<exists>outbound inbound outbound' inbound'.
     fk_fold fk_rows = Inr (outbound, inbound)
     \<and> fk_fold (fk_rows @ [row]) = Inr (outbound', inbound')
     \<and> (\<forall>(k, d) \<in> set outbound.
           \<exists>r0. find (\<lambda>r. CONSTRAINT_NAME r = k) fk_rows = Some r0
              \<and> ob_name d = CONSTRAINT_NAME r0
              \<and> target_schema d = REFERENCED_TABLE_SCHEMA r0
              \<and> target_table d = REFERENCED_TABLE_NAME r0)
     \<and> (\<forall>(k, d) \<in> set inbound.
           \<exists>r0. find (\<lambda>r. inbound_key r = k) fk_rows = Some r0
              \<and> ib_name d = CONSTRAINT_NAME r0
              \<and> source_schema d = TABLE_SCHEMA r0
              \<and> source_table d = TABLE_NAME r0)
     \<and> (\<forall>d. map_of outbound (CONSTRAINT_NAME row) = Some d \<longrightarrow>
           map_of outbound' (CONSTRAINT_NAME row)
             = Some (d\<lparr>ob_columns := ob_columns d @ [fk_entry row]\<rparr>))
     \<and> (\<forall>d. map_of inbound (inbound_key row) = Some d \<longrightarrow>
           map_of inbound' (inbound_key row)
             = Some (d\<lparr>ib_columns := ib_columns d @ [fk_entry row]\<rparr>))"
proof -
  let ?out = "grouped CONSTRAINT_NAME new_outbound add_outbound_column"
  let ?inb = "grouped inbound_key new_inbound add_inbound_column"
  have a: "fk_fold fk_rows = Inr (?out fk_rows, ?inb fk_rows)"
    and b: "fk_fold (fk_rows @ [row]) = Inr (?out (fk_rows @ [row]), ?inb (fk_rows @ [row]))"
    by (rule fk_fold_grouped)+
  have c: "\<forall>(k, d) \<in> set (?out fk_rows).
           \<exists>r0. find (\<lambda>r. CONSTRAINT_NAME r = k) fk_rows = Some r0
              \<and> ob_name d = CONSTRAINT_NAME r0
              \<and> target_schema d = REFERENCED_TABLE_SCHEMA r0
              \<and> target_table d = REFERENCED_TABLE_NAME r0"
    by (auto simp: in_outbound_grouped find_rows_of key_hd_rows_of)
  have d: "\<forall>(k, d) \<in> set (?inb fk_rows).
           \<exists>r0. find (\<lambda>r. inbound_key r = k) fk_rows = Some r0
              \<and> ib_name d = CONSTRAINT_NAME r0
              \<and> source_schema d = TABLE_SCHEMA r0
              \<and> source_table d = TABLE_NAME r0"
    by (auto simp: in_inbound_grouped find_rows_of)
  have e: "\<forall>d. map_of (?out fk_rows) (CONSTRAINT_NAME row) = Some d \<longrightarrow>
           map_of (?out (fk_rows @ [row])) (CONSTRAINT_NAME row)
             = Some (d\<lparr>ob_columns := ob_columns d @ [fk_entry row]\<rparr>)"
    using map_of_grouped_snoc[of CONSTRAINT_NAME new_outbound add_outbound_column fk_rows row]
    by (simp add: add_outbound_column_def)
  have f: "\<forall>d. map_of (?inb fk_rows) (inbound_key row) = Some d \<longrightarrow>
           map_of (?inb (fk_rows @ [row])) (inbound_key row)
             = Some (d\<lparr>ib_columns := ib_columns d @ [fk_entry row]\<rparr>)"
    using map_of_grouped_snoc[of inbound_key new_inbound add_inbound_column fk_rows row]
    by (simp add: add_inbound_column_def)
  show ?thesis
    using a b c d e f by blast
qed

theorem fk_descriptor_fields_from_first_row_witness:
  "fk_fold
     [\<lparr>CONSTRAINT_NAME = Some ''fk_a'', TABLE_SCHEMA = Some ''app'', TABLE_NAME = Some ''child'',
       FK_COLUMN_NAME = Some ''p1'', REFERENCED_TABLE_SCHEMA = Some ''app'',
       REFERENCED_TABLE_NAME = Some ''parent'', REFERENCED_COLUMN_NAME = Some ''k1''\<rparr>]
   = Inr ([(Some ''fk_a'',
            \<lparr>ob_name = Some ''fk_a'', target_schema = Some ''app'', target_table = Some ''parent'',
             ob_columns = [\<lparr>fc_column = Some ''p1'', fc_references = Some ''k1''\<rparr>]\<rparr>)],
          [(''app.parent.fk_a'',
            \<lparr>ib_name = Some ''fk_a'', source_schema = Some ''app'', source_table = Some ''child'',
             ib_columns = [\<lparr>fc_column = Some ''p1'', fc_references = Some ''k1''\<rparr>]\<rparr>)])
   \<and> (\<exists>outbound' inbound'.
         fk_fold
           ([\<lparr>CONSTRAINT_NAME = Some ''fk_a'', TABLE_SCHEMA = Some ''app'',
              TABLE_NAME = Some ''child'', FK_COLUMN_NAME = Some ''p1'',
              REFERENCED_TABLE_SCHEMA = Some ''app'', REFERENCED_TABLE_NAME = Some ''parent'',
              REFERENCED_COLUMN_NAME = Some ''k1''\<rparr>]
            @ [\<lparr>CONSTRAINT_NAME = Some ''fk_a'', TABLE_SCHEMA = Some ''app'',
                TABLE_NAME = Some ''child'', FK_COLUMN_NAME = Some ''p2'',
                REFERENCED_TABLE_SCHEMA = Some ''other'', REFERENCED_TABLE_NAME = Some ''owner'',
                REFERENCED_COLUMN_NAME = Some ''k2''\<rparr>]) = Inr (outbound', inbound')
         \<and> map_of outbound' (Some ''fk_a'') =
             Some \<lparr>ob_name = Some ''fk_a'', target_schema = Some ''app'',
                   target_table = Some ''parent'',
                   ob_columns = [\<lparr>fc_column = Some ''p1'', fc_references = Some ''k1''\<rparr>,
                                 \<lparr>fc_column = Some ''p2'', fc_references = Some ''k2''\<rparr>]\<rparr>)"
  (is "fk_fold ?rows = Inr (?out, ?inb) \<and> ?later_claim")
proof -
  let ?row = "\<lparr>CONSTRAINT_NAME = Some ''fk_a'', TABLE_SCHEMA = Some ''app'',
                TABLE_NAME = Some ''child'', FK_COLUMN_NAME = Some ''p2'',
                REFERENCED_TABLE_SCHEMA = Some ''other'', REFERENCED_TABLE_NAME = Some ''owner'',
                REFERENCED_COLUMN_NAME = Some ''k2''\<rparr>"
  have e: "fk_fold ?rows = Inr (?out, ?inb)"
    by (simp add: fold_eval)
  have gen: "\<exists>outbound inbound outbound' inbound'.
     fk_fold rs = Inr (outbound, inbound)
     \<and> fk_fold (rs @ [r]) = Inr (outbound', inbound')
     \<and> (\<forall>d. map_of outbound (CONSTRAINT_NAME r) = Some d \<longrightarrow>
           map_of outbound' (CONSTRAINT_NAME r)
             = Some (d\<lparr>ob_columns := ob_columns d @ [fk_entry r]\<rparr>))" for rs r
    using fk_descriptor_fields_from_first_row[of rs r] by fast
  from gen[of ?rows ?row] obtain outbound inbound outbound' inbound'
    where f: "fk_fold ?rows = Inr (outbound, inbound)"
      and g: "fk_fold (?rows @ [?row]) = Inr (outbound', inbound')"
      and h: "\<forall>d. map_of outbound (CONSTRAINT_NAME ?row) = Some d \<longrightarrow>
           map_of outbound' (CONSTRAINT_NAME ?row)
             = Some (d\<lparr>ob_columns := ob_columns d @ [fk_entry ?row]\<rparr>)"
    by (elim exE conjE) (rule that)
  from f e have i: "outbound = ?out"
    by simp
  from h have "map_of outbound' (Some ''fk_a'') =
             Some \<lparr>ob_name = Some ''fk_a'', target_schema = Some ''app'',
                   target_table = Some ''parent'',
                   ob_columns = [\<lparr>fc_column = Some ''p1'', fc_references = Some ''k1''\<rparr>,
                                 \<lparr>fc_column = Some ''p2'', fc_references = Some ''k2''\<rparr>]\<rparr>"
    unfolding i by (simp add: fk_entry_def)
  with g have l: ?later_claim
    by blast
  show ?thesis
    by (rule conjI[OF e l])
qed

text \<open>
  \<^bold>\<open>C2\<close>, as amended. Among key-usage rows whose referenced schema, referenced table and
  constraint name are not \<^verbatim>\<open>None\<close> and whose referenced schema and table contain no dot,
  two rows share an inbound descriptor exactly when their triples (referenced schema,
  referenced table, constraint name) are equal: the keys of the inbound dictionary are
  distinct, each row's descriptor is the one under its key, its columns are the entries of
  exactly the rows with the same triple, and the keys of two rows are equal if and only if
  their triples are. So rows with different triples lie in different descriptors whose
  columns are not mixed, and rows with one triple lie in one descriptor whatever their
  source schema.
\<close>

theorem inbound_descriptors_separate_triples:
  assumes wf: "\<forall>r \<in> set fk_rows. \<exists>s t n.
      REFERENCED_TABLE_SCHEMA r = Some s \<and> REFERENCED_TABLE_NAME r = Some t
      \<and> CONSTRAINT_NAME r = Some n \<and> CHR ''.'' \<notin> set s \<and> CHR ''.'' \<notin> set t"
    and r1: "r1 \<in> set fk_rows" and r2: "r2 \<in> set fk_rows"
  shows "\<exists>outbound inbound d1 d2.
     fk_fold fk_rows = Inr (outbound, inbound)
     \<and> distinct (map fst inbound)
     \<and> map_of inbound (inbound_key r1) = Some d1
     \<and> map_of inbound (inbound_key r2) = Some d2
     \<and> ib_columns d1 = map fk_entry (filter (\<lambda>r. ref_triple r = ref_triple r1) fk_rows)
     \<and> ib_columns d2 = map fk_entry (filter (\<lambda>r. ref_triple r = ref_triple r2) fk_rows)
     \<and> (inbound_key r1 = inbound_key r2 \<longleftrightarrow> ref_triple r1 = ref_triple r2)"
proof -
  let ?inb = "grouped inbound_key new_inbound add_inbound_column fk_rows"
  have same: "inbound_key r = inbound_key r' \<longleftrightarrow> ref_triple r = ref_triple r'"
    if "r \<in> set fk_rows" "r' \<in> set fk_rows" for r r'
    using wf that inbound_key_eq_iff by blast
  have cols: "\<exists>d. map_of ?inb (inbound_key r0) = Some d
      \<and> ib_columns d = map fk_entry (filter (\<lambda>r. ref_triple r = ref_triple r0) fk_rows)"
    if r0: "r0 \<in> set fk_rows" for r0
  proof -
    have "filter (\<lambda>r. inbound_key r = inbound_key r0) fk_rows
          = filter (\<lambda>r. ref_triple r = ref_triple r0) fk_rows"
      using same[OF _ r0] by (intro filter_cong) auto
    then show ?thesis
      using r0
      by (simp add: map_of_grouped foldl_add_inbound_column new_inbound_def rows_of_def)
  qed
  from cols[OF r1] cols[OF r2] same[OF r1 r2] fk_fold_grouped[of fk_rows]
    distinct_grouped[of inbound_key new_inbound add_inbound_column fk_rows]
  show ?thesis
    by blast
qed

theorem inbound_descriptors_separate_triples_witness:
  "ref_triple
     \<lparr>CONSTRAINT_NAME = Some ''fk_parent'', TABLE_SCHEMA = Some ''app'',
      TABLE_NAME = Some ''child'', FK_COLUMN_NAME = Some ''a'',
      REFERENCED_TABLE_SCHEMA = Some ''core'', REFERENCED_TABLE_NAME = Some ''parent'',
      REFERENCED_COLUMN_NAME = Some ''id''\<rparr>
   \<noteq> ref_triple
     \<lparr>CONSTRAINT_NAME = Some ''fk_parent'', TABLE_SCHEMA = Some ''app'',
      TABLE_NAME = Some ''child'', FK_COLUMN_NAME = Some ''b'',
      REFERENCED_TABLE_SCHEMA = Some ''audit'', REFERENCED_TABLE_NAME = Some ''parent'',
      REFERENCED_COLUMN_NAME = Some ''id''\<rparr>
   \<and> inbound_key
     \<lparr>CONSTRAINT_NAME = Some ''fk_parent'', TABLE_SCHEMA = Some ''app'',
      TABLE_NAME = Some ''child'', FK_COLUMN_NAME = Some ''a'',
      REFERENCED_TABLE_SCHEMA = Some ''core'', REFERENCED_TABLE_NAME = Some ''parent'',
      REFERENCED_COLUMN_NAME = Some ''id''\<rparr>
   \<noteq> inbound_key
     \<lparr>CONSTRAINT_NAME = Some ''fk_parent'', TABLE_SCHEMA = Some ''app'',
      TABLE_NAME = Some ''child'', FK_COLUMN_NAME = Some ''b'',
      REFERENCED_TABLE_SCHEMA = Some ''audit'', REFERENCED_TABLE_NAME = Some ''parent'',
      REFERENCED_COLUMN_NAME = Some ''id''\<rparr>
   \<and> (\<exists>outbound inbound d1 d2.
        fk_fold
          [\<lparr>CONSTRAINT_NAME = Some ''fk_parent'', TABLE_SCHEMA = Some ''app'',
            TABLE_NAME = Some ''child'', FK_COLUMN_NAME = Some ''a'',
            REFERENCED_TABLE_SCHEMA = Some ''core'', REFERENCED_TABLE_NAME = Some ''parent'',
            REFERENCED_COLUMN_NAME = Some ''id''\<rparr>,
           \<lparr>CONSTRAINT_NAME = Some ''fk_parent'', TABLE_SCHEMA = Some ''app'',
            TABLE_NAME = Some ''child'', FK_COLUMN_NAME = Some ''b'',
            REFERENCED_TABLE_SCHEMA = Some ''audit'', REFERENCED_TABLE_NAME = Some ''parent'',
            REFERENCED_COLUMN_NAME = Some ''id''\<rparr>] = Inr (outbound, inbound)
        \<and> distinct (map fst inbound)
        \<and> map_of inbound ''core.parent.fk_parent'' = Some d1
        \<and> map_of inbound ''audit.parent.fk_parent'' = Some d2
        \<and> ib_columns d1 = [\<lparr>fc_column = Some ''a'', fc_references = Some ''id''\<rparr>]
        \<and> ib_columns d2 = [\<lparr>fc_column = Some ''b'', fc_references = Some ''id''\<rparr>])"
  (is "ref_triple ?a \<noteq> ref_triple ?b \<and> _ \<and> _")
proof -
  have wf: "\<forall>r \<in> set [?a, ?b]. \<exists>s t n.
      REFERENCED_TABLE_SCHEMA r = Some s \<and> REFERENCED_TABLE_NAME r = Some t
      \<and> CONSTRAINT_NAME r = Some n \<and> CHR ''.'' \<notin> set s \<and> CHR ''.'' \<notin> set t"
    by simp
  have a: "?a \<in> set [?a, ?b]" and b: "?b \<in> set [?a, ?b]"
    by simp_all
  from inbound_descriptors_separate_triples[OF wf a b] show ?thesis
    by (simp add: ref_triple_def inbound_key_def py_str_def fk_entry_def)
qed

text \<open>
  The claim as it was stated fails twice. The key is the three values joined by dots, so
  two rows of one table with the triples \<open>(shop, order.items, fk)\<close> and
  \<open>(shop, order, items.fk)\<close> get the same key and one inbound descriptor with both columns.
  And the key has no part for the source schema, so two foreign keys named \<open>fk_parent\<close>
  from the schemas \<open>app1\<close> and \<open>app2\<close> that reference the same table \<open>core.parent\<close> land
  in one inbound descriptor, which carries the first row's source schema.
\<close>

theorem inbound_key_merges_counterexample:
  "ref_triple
     \<lparr>CONSTRAINT_NAME = Some ''fk'', TABLE_SCHEMA = Some ''shop'', TABLE_NAME = Some ''line'',
      FK_COLUMN_NAME = Some ''a'', REFERENCED_TABLE_SCHEMA = Some ''shop'',
      REFERENCED_TABLE_NAME = Some ''order.items'', REFERENCED_COLUMN_NAME = Some ''id''\<rparr>
   \<noteq> ref_triple
     \<lparr>CONSTRAINT_NAME = Some ''items.fk'', TABLE_SCHEMA = Some ''shop'', TABLE_NAME = Some ''line'',
      FK_COLUMN_NAME = Some ''b'', REFERENCED_TABLE_SCHEMA = Some ''shop'',
      REFERENCED_TABLE_NAME = Some ''order'', REFERENCED_COLUMN_NAME = Some ''id''\<rparr>
   \<and> fk_fold
     [\<lparr>CONSTRAINT_NAME = Some ''fk'', TABLE_SCHEMA = Some ''shop'', TABLE_NAME = Some ''line'',
       FK_COLUMN_NAME = Some ''a'', REFERENCED_TABLE_SCHEMA = Some ''shop'',
       REFERENCED_TABLE_NAME = Some ''order.items'', REFERENCED_COLUMN_NAME = Some ''id''\<rparr>,
      \<lparr>CONSTRAINT_NAME = Some ''items.fk'', TABLE_SCHEMA = Some ''shop'', TABLE_NAME = Some ''line'',
       FK_COLUMN_NAME = Some ''b'', REFERENCED_TABLE_SCHEMA = Some ''shop'',
       REFERENCED_TABLE_NAME = Some ''order'', REFERENCED_COLUMN_NAME = Some ''id''\<rparr>]
   = Inr ([(Some ''fk'',
            \<lparr>ob_name = Some ''fk'', target_schema = Some ''shop'',
             target_table = Some ''order.items'',
             ob_columns = [\<lparr>fc_column = Some ''a'', fc_references = Some ''id''\<rparr>]\<rparr>),
           (Some ''items.fk'',
            \<lparr>ob_name = Some ''items.fk'', target_schema = Some ''shop'',
             target_table = Some ''order'',
             ob_columns = [\<lparr>fc_column = Some ''b'', fc_references = Some ''id''\<rparr>]\<rparr>)],
          [(''shop.order.items.fk'',
            \<lparr>ib_name = Some ''fk'', source_schema = Some ''shop'', source_table = Some ''line'',
             ib_columns = [\<lparr>fc_column = Some ''a'', fc_references = Some ''id''\<rparr>,
                           \<lparr>fc_column = Some ''b'', fc_references = Some ''id''\<rparr>]\<rparr>)])
   \<and> TABLE_SCHEMA
     \<lparr>CONSTRAINT_NAME = Some ''fk_parent'', TABLE_SCHEMA = Some ''app1'',
      TABLE_NAME = Some ''child'', FK_COLUMN_NAME = Some ''parent_id'',
      REFERENCED_TABLE_SCHEMA = Some ''core'', REFERENCED_TABLE_NAME = Some ''parent'',
      REFERENCED_COLUMN_NAME = Some ''id''\<rparr>
   \<noteq> TABLE_SCHEMA
     \<lparr>CONSTRAINT_NAME = Some ''fk_parent'', TABLE_SCHEMA = Some ''app2'',
      TABLE_NAME = Some ''child'', FK_COLUMN_NAME = Some ''owner_id'',
      REFERENCED_TABLE_SCHEMA = Some ''core'', REFERENCED_TABLE_NAME = Some ''parent'',
      REFERENCED_COLUMN_NAME = Some ''id''\<rparr>
   \<and> fk_fold
     [\<lparr>CONSTRAINT_NAME = Some ''fk_parent'', TABLE_SCHEMA = Some ''app1'',
       TABLE_NAME = Some ''child'', FK_COLUMN_NAME = Some ''parent_id'',
       REFERENCED_TABLE_SCHEMA = Some ''core'', REFERENCED_TABLE_NAME = Some ''parent'',
       REFERENCED_COLUMN_NAME = Some ''id''\<rparr>,
      \<lparr>CONSTRAINT_NAME = Some ''fk_parent'', TABLE_SCHEMA = Some ''app2'',
       TABLE_NAME = Some ''child'', FK_COLUMN_NAME = Some ''owner_id'',
       REFERENCED_TABLE_SCHEMA = Some ''core'', REFERENCED_TABLE_NAME = Some ''parent'',
       REFERENCED_COLUMN_NAME = Some ''id''\<rparr>]
   = Inr ([(Some ''fk_parent'',
            \<lparr>ob_name = Some ''fk_parent'', target_schema = Some ''core'',
             target_table = Some ''parent'',
             ob_columns = [\<lparr>fc_column = Some ''parent_id'', fc_references = Some ''id''\<rparr>,
                           \<lparr>fc_column = Some ''owner_id'', fc_references = Some ''id''\<rparr>]\<rparr>)],
          [(''core.parent.fk_parent'',
            \<lparr>ib_name = Some ''fk_parent'', source_schema = Some ''app1'',
             source_table = Some ''child'',
             ib_columns = [\<lparr>fc_column = Some ''parent_id'', fc_references = Some ''id''\<rparr>,
                           \<lparr>fc_column = Some ''owner_id'', fc_references = Some ''id''\<rparr>]\<rparr>)])"
  by (simp add: fold_eval ref_triple_def)

text \<open>
  \<^bold>\<open>C4\<close>, as amended. Take index-statistics rows in which all rows of one index name
  have the same truth value of the uniqueness flag, no two rows of one index name have
  the same sequence number with different column names, and rows that the fold puts under
  one key have one index name (so a missing name, the empty name and the name
  \<^verbatim>\<open>"(unnamed)"\<close> do not occur together). Fold any permutation of them and sort the columns
  of every descriptor by sequence number: the set of descriptors is the set that the fold
  alone builds from the rows sorted by (name, sequence). The keys that get a descriptor
  are the same too, and before the sort the columns of a descriptor stand in the order of
  the input rows, not in the order of their sequence numbers.
\<close>

theorem index_fold_order_independent:
  assumes perm: "mset rows' = mset idx_rows"
    and names: "\<forall>r \<in> set idx_rows. \<forall>r' \<in> set idx_rows.
        idx_name_of r = idx_name_of r' \<longrightarrow> INDEX_NAME r = INDEX_NAME r'"
    and flags: "\<forall>r \<in> set idx_rows. \<forall>r' \<in> set idx_rows. INDEX_NAME r = INDEX_NAME r' \<longrightarrow>
        (IS_PRIMARY_OR_UNIQUE r \<noteq> 0) = (IS_PRIMARY_OR_UNIQUE r' \<noteq> 0)"
    and seqs: "\<forall>r \<in> set idx_rows. \<forall>r' \<in> set idx_rows.
        INDEX_NAME r = INDEX_NAME r' \<and> SEQ_IN_INDEX r = SEQ_IN_INDEX r' \<longrightarrow>
        IX_COLUMN_NAME r = IX_COLUMN_NAME r'"
  shows "\<exists>ixs ixs'.
     index_fold rows' = Inr ixs
     \<and> index_fold (sort_key name_seq idx_rows) = Inr ixs'
     \<and> set (map sort_columns (od_values ixs)) = set (od_values ixs')
     \<and> fst ` set ixs = fst ` set ixs'
     \<and> (\<forall>(k, d) \<in> set ixs.
           ix_columns d = map index_entry (filter (\<lambda>r. idx_name_of r = k) rows'))"
proof -
  let ?g = "grouped idx_name_of new_index add_index_column"
  have s: "set rows' = set idx_rows"
    using perm by (metis mset_eq_setD)
  have m: "mset rows' = mset (sort_key name_seq idx_rows)"
    using perm by simp
  have kflags: "\<forall>r \<in> set rows'. \<forall>r' \<in> set rows'. idx_name_of r = idx_name_of r' \<longrightarrow>
        (IS_PRIMARY_OR_UNIQUE r \<noteq> 0) = (IS_PRIMARY_OR_UNIQUE r' \<noteq> 0)"
    unfolding s using names flags by blast
  have kseqs: "\<forall>r \<in> set rows'. \<forall>r' \<in> set rows'.
        idx_name_of r = idx_name_of r' \<and> SEQ_IN_INDEX r = SEQ_IN_INDEX r' \<longrightarrow>
        IX_COLUMN_NAME r = IX_COLUMN_NAME r'"
    unfolding s using names seqs by blast
  have a: "index_fold rows' = Inr (?g rows')"
    and b: "index_fold (sort_key name_seq idx_rows) = Inr (?g (sort_key name_seq idx_rows))"
    by (rule index_fold_grouped)+
  have "set (map sort_columns (od_values (?g rows')))
         = set (map sort_columns (od_values (?g (sort_key name_seq idx_rows))))"
    using m kflags kseqs by (rule sorted_descriptors_perm)
  then have c: "set (map sort_columns (od_values (?g rows')))
         = set (od_values (?g (sort_key name_seq idx_rows)))"
    by (simp only: sorted_rows_descriptors[OF names])
  have d: "fst ` set (?g rows') = fst ` set (?g (sort_key name_seq idx_rows))"
    by (simp add: fst_set_grouped s)
  have e: "\<forall>(k, d) \<in> set (?g rows').
           ix_columns d = map index_entry (filter (\<lambda>r. idx_name_of r = k) rows')"
    by (auto simp: in_index_grouped rows_of_def)
  show ?thesis
    using a b c d e by blast
qed

theorem index_fold_order_independent_witness:
  "index_fold
     [\<lparr>INDEX_NAME = Some ''ix_ab'', IS_PRIMARY_OR_UNIQUE = 0, SEQ_IN_INDEX = 2,
       IX_COLUMN_NAME = Some ''b''\<rparr>,
      \<lparr>INDEX_NAME = Some ''ix_ab'', IS_PRIMARY_OR_UNIQUE = 0, SEQ_IN_INDEX = 1,
       IX_COLUMN_NAME = Some ''a''\<rparr>,
      \<lparr>INDEX_NAME = Some ''PRIMARY'', IS_PRIMARY_OR_UNIQUE = 1, SEQ_IN_INDEX = 1,
       IX_COLUMN_NAME = Some ''id''\<rparr>]
   = Inr [(''ix_ab'',
           \<lparr>ix_name = ''ix_ab'', is_primary_or_unique = False,
            ix_columns = [\<lparr>ic_name = Some ''b'', ic_seq_in_index = 2\<rparr>,
                          \<lparr>ic_name = Some ''a'', ic_seq_in_index = 1\<rparr>]\<rparr>),
          (''PRIMARY'',
           \<lparr>ix_name = ''PRIMARY'', is_primary_or_unique = True,
            ix_columns = [\<lparr>ic_name = Some ''id'', ic_seq_in_index = 1\<rparr>]\<rparr>)]
   \<and> index_fold (sort_key name_seq
     [\<lparr>INDEX_NAME = Some ''ix_ab'', IS_PRIMARY_OR_UNIQUE = 0, SEQ_IN_INDEX = 1,
       IX_COLUMN_NAME = Some ''a''\<rparr>,
      \<lparr>INDEX_NAME = Some ''PRIMARY'', IS_PRIMARY_OR_UNIQUE = 1, SEQ_IN_INDEX = 1,
       IX_COLUMN_NAME = Some ''id''\<rparr>,
      \<lparr>INDEX_NAME = Some ''ix_ab'', IS_PRIMARY_OR_UNIQUE = 0, SEQ_IN_INDEX = 2,
       IX_COLUMN_NAME = Some ''b''\<rparr>])
   = Inr [(''PRIMARY'',
           \<lparr>ix_name = ''PRIMARY'', is_primary_or_unique = True,
            ix_columns = [\<lparr>ic_name = Some ''id'', ic_seq_in_index = 1\<rparr>]\<rparr>),
          (''ix_ab'',
           \<lparr>ix_name = ''ix_ab'', is_primary_or_unique = False,
            ix_columns = [\<lparr>ic_name = Some ''a'', ic_seq_in_index = 1\<rparr>,
                          \<lparr>ic_name = Some ''b'', ic_seq_in_index = 2\<rparr>]\<rparr>)]
   \<and> set (map sort_columns (od_values
         [(''ix_ab'',
           \<lparr>ix_name = ''ix_ab'', is_primary_or_unique = False,
            ix_columns = [\<lparr>ic_name = Some ''b'', ic_seq_in_index = 2\<rparr>,
                          \<lparr>ic_name = Some ''a'', ic_seq_in_index = 1\<rparr>]\<rparr>),
          (''PRIMARY'',
           \<lparr>ix_name = ''PRIMARY'', is_primary_or_unique = True,
            ix_columns = [\<lparr>ic_name = Some ''id'', ic_seq_in_index = 1\<rparr>]\<rparr>)]))
     = set (od_values
         [(''PRIMARY'',
           \<lparr>ix_name = ''PRIMARY'', is_primary_or_unique = True,
            ix_columns = [\<lparr>ic_name = Some ''id'', ic_seq_in_index = 1\<rparr>]\<rparr>),
          (''ix_ab'',
           \<lparr>ix_name = ''ix_ab'', is_primary_or_unique = False,
            ix_columns = [\<lparr>ic_name = Some ''a'', ic_seq_in_index = 1\<rparr>,
                          \<lparr>ic_name = Some ''b'', ic_seq_in_index = 2\<rparr>]\<rparr>)])"
  (is "index_fold ?rows' = Inr ?x \<and> index_fold (sort_key name_seq ?rows) = Inr ?y \<and> ?same")
proof -
  have e1: "index_fold ?rows' = Inr ?x"
    by (simp add: fold_eval)
  have e2: "index_fold (sort_key name_seq ?rows) = Inr ?y"
    by (simp add: fold_eval name_seq_def)
  have perm: "mset ?rows' = mset ?rows"
    by (simp add: add_mset_commute)
  have names: "\<forall>r \<in> set ?rows. \<forall>r' \<in> set ?rows.
        idx_name_of r = idx_name_of r' \<longrightarrow> INDEX_NAME r = INDEX_NAME r'"
    by (simp add: idx_name_of_def)
  have flags: "\<forall>r \<in> set ?rows. \<forall>r' \<in> set ?rows. INDEX_NAME r = INDEX_NAME r' \<longrightarrow>
        (IS_PRIMARY_OR_UNIQUE r \<noteq> 0) = (IS_PRIMARY_OR_UNIQUE r' \<noteq> 0)"
    by simp
  have seqs: "\<forall>r \<in> set ?rows. \<forall>r' \<in> set ?rows.
        INDEX_NAME r = INDEX_NAME r' \<and> SEQ_IN_INDEX r = SEQ_IN_INDEX r' \<longrightarrow>
        IX_COLUMN_NAME r = IX_COLUMN_NAME r'"
    by simp
  have gen: "\<exists>ixs ixs'. index_fold rs' = Inr ixs
       \<and> index_fold (sort_key name_seq rs) = Inr ixs'
       \<and> set (map sort_columns (od_values ixs)) = set (od_values ixs')"
    if "mset rs' = mset rs"
      and "\<forall>r \<in> set rs. \<forall>r' \<in> set rs.
        idx_name_of r = idx_name_of r' \<longrightarrow> INDEX_NAME r = INDEX_NAME r'"
      and "\<forall>r \<in> set rs. \<forall>r' \<in> set rs. INDEX_NAME r = INDEX_NAME r' \<longrightarrow>
        (IS_PRIMARY_OR_UNIQUE r \<noteq> 0) = (IS_PRIMARY_OR_UNIQUE r' \<noteq> 0)"
      and "\<forall>r \<in> set rs. \<forall>r' \<in> set rs.
        INDEX_NAME r = INDEX_NAME r' \<and> SEQ_IN_INDEX r = SEQ_IN_INDEX r' \<longrightarrow>
        IX_COLUMN_NAME r = IX_COLUMN_NAME r'" for rs rs'
    using index_fold_order_independent[OF that] by fast
  from gen[OF perm names flags seqs] obtain ixs ixs'
    where f: "index_fold ?rows' = Inr ixs"
      and g: "index_fold (sort_key name_seq ?rows) = Inr ixs'"
      and h: "set (map sort_columns (od_values ixs)) = set (od_values ixs')"
    by (elim exE conjE) (rule that)
  from f e1 have i: "ixs = ?x"
    by simp
  from g e2 have j: "ixs' = ?y"
    by simp
  from h have l: ?same
    unfolding i j .
  show ?thesis
    by (rule conjI[OF e1 conjI[OF e2 l]])
qed

text \<open>
  Without the two added conditions the claim fails. Two rows of the index \<open>ix\<close> that both
  carry sequence number 1, for the columns \<open>x\<close> and \<open>y\<close>, folded in the order \<open>y, x\<close> give
  the columns \<open>y, x\<close>, which a stable sort by sequence number leaves as they are, while
  the rows sorted by (name, sequence) give \<open>x, y\<close>. And a row without a name, of sequence
  number 2, and a row with the empty name, of sequence number 1, go to the one descriptor
  \<^verbatim>\<open>"(unnamed)"\<close>; the sort by (name, sequence) puts the row without a name first, so
  the fold of the sorted rows has the columns in the order 2, 1.
\<close>

theorem index_fold_order_counterexample:
  "mset
     [\<lparr>INDEX_NAME = Some ''ix'', IS_PRIMARY_OR_UNIQUE = 0, SEQ_IN_INDEX = 1,
       IX_COLUMN_NAME = Some ''y''\<rparr>,
      \<lparr>INDEX_NAME = Some ''ix'', IS_PRIMARY_OR_UNIQUE = 0, SEQ_IN_INDEX = 1,
       IX_COLUMN_NAME = Some ''x''\<rparr>]
   = mset
     [\<lparr>INDEX_NAME = Some ''ix'', IS_PRIMARY_OR_UNIQUE = 0, SEQ_IN_INDEX = 1,
       IX_COLUMN_NAME = Some ''x''\<rparr>,
      \<lparr>INDEX_NAME = Some ''ix'', IS_PRIMARY_OR_UNIQUE = 0, SEQ_IN_INDEX = 1,
       IX_COLUMN_NAME = Some ''y''\<rparr>]
   \<and> index_fold
     [\<lparr>INDEX_NAME = Some ''ix'', IS_PRIMARY_OR_UNIQUE = 0, SEQ_IN_INDEX = 1,
       IX_COLUMN_NAME = Some ''y''\<rparr>,
      \<lparr>INDEX_NAME = Some ''ix'', IS_PRIMARY_OR_UNIQUE = 0, SEQ_IN_INDEX = 1,
       IX_COLUMN_NAME = Some ''x''\<rparr>]
   = Inr [(''ix'',
           \<lparr>ix_name = ''ix'', is_primary_or_unique = False,
            ix_columns = [\<lparr>ic_name = Some ''y'', ic_seq_in_index = 1\<rparr>,
                          \<lparr>ic_name = Some ''x'', ic_seq_in_index = 1\<rparr>]\<rparr>)]
   \<and> index_fold (sort_key name_seq
     [\<lparr>INDEX_NAME = Some ''ix'', IS_PRIMARY_OR_UNIQUE = 0, SEQ_IN_INDEX = 1,
       IX_COLUMN_NAME = Some ''x''\<rparr>,
      \<lparr>INDEX_NAME = Some ''ix'', IS_PRIMARY_OR_UNIQUE = 0, SEQ_IN_INDEX = 1,
       IX_COLUMN_NAME = Some ''y''\<rparr>])
   = Inr [(''ix'',
           \<lparr>ix_name = ''ix'', is_primary_or_unique = False,
            ix_columns = [\<lparr>ic_name = Some ''x'', ic_seq_in_index = 1\<rparr>,
                          \<lparr>ic_name = Some ''y'', ic_seq_in_index = 1\<rparr>]\<rparr>)]
   \<and> set (map sort_columns (od_values
         [(''ix'',
           \<lparr>ix_name = ''ix'', is_primary_or_unique = False,
            ix_columns = [\<lparr>ic_name = Some ''y'', ic_seq_in_index = 1\<rparr>,
                          \<lparr>ic_name = Some ''x'', ic_seq_in_index = 1\<rparr>]\<rparr>)]))
     \<noteq> set (od_values
         [(''ix'',
           \<lparr>ix_name = ''ix'', is_primary_or_unique = False,
            ix_columns = [\<lparr>ic_name = Some ''x'', ic_seq_in_index = 1\<rparr>,
                          \<lparr>ic_name = Some ''y'', ic_seq_in_index = 1\<rparr>]\<rparr>)])
   \<and> mset
     [\<lparr>INDEX_NAME = Some [], IS_PRIMARY_OR_UNIQUE = 0, SEQ_IN_INDEX = 1,
       IX_COLUMN_NAME = Some ''a''\<rparr>,
      \<lparr>INDEX_NAME = None, IS_PRIMARY_OR_UNIQUE = 0, SEQ_IN_INDEX = 2,
       IX_COLUMN_NAME = Some ''b''\<rparr>]
   = mset
     [\<lparr>INDEX_NAME = None, IS_PRIMARY_OR_UNIQUE = 0, SEQ_IN_INDEX = 2,
       IX_COLUMN_NAME = Some ''b''\<rparr>,
      \<lparr>INDEX_NAME = Some [], IS_PRIMARY_OR_UNIQUE = 0, SEQ_IN_INDEX = 1,
       IX_COLUMN_NAME = Some ''a''\<rparr>]
   \<and> index_fold
     [\<lparr>INDEX_NAME = Some [], IS_PRIMARY_OR_UNIQUE = 0, SEQ_IN_INDEX = 1,
       IX_COLUMN_NAME = Some ''a''\<rparr>,
      \<lparr>INDEX_NAME = None, IS_PRIMARY_OR_UNIQUE = 0, SEQ_IN_INDEX = 2,
       IX_COLUMN_NAME = Some ''b''\<rparr>]
   = Inr [(''(unnamed)'',
           \<lparr>ix_name = ''(unnamed)'', is_primary_or_unique = False,
            ix_columns = [\<lparr>ic_name = Some ''a'', ic_seq_in_index = 1\<rparr>,
                          \<lparr>ic_name = Some ''b'', ic_seq_in_index = 2\<rparr>]\<rparr>)]
   \<and> index_fold (sort_key name_seq
     [\<lparr>INDEX_NAME = None, IS_PRIMARY_OR_UNIQUE = 0, SEQ_IN_INDEX = 2,
       IX_COLUMN_NAME = Some ''b''\<rparr>,
      \<lparr>INDEX_NAME = Some [], IS_PRIMARY_OR_UNIQUE = 0, SEQ_IN_INDEX = 1,
       IX_COLUMN_NAME = Some ''a''\<rparr>])
   = Inr [(''(unnamed)'',
           \<lparr>ix_name = ''(unnamed)'', is_primary_or_unique = False,
            ix_columns = [\<lparr>ic_name = Some ''b'', ic_seq_in_index = 2\<rparr>,
                          \<lparr>ic_name = Some ''a'', ic_seq_in_index = 1\<rparr>]\<rparr>)]
   \<and> set (map sort_columns (od_values
         [(''(unnamed)'',
           \<lparr>ix_name = ''(unnamed)'', is_primary_or_unique = False,
            ix_columns = [\<lparr>ic_name = Some ''a'', ic_seq_in_index = 1\<rparr>,
                          \<lparr>ic_name = Some ''b'', ic_seq_in_index = 2\<rparr>]\<rparr>)]))
     \<noteq> set (od_values
         [(''(unnamed)'',
           \<lparr>ix_name = ''(unnamed)'', is_primary_or_unique = False,
            ix_columns = [\<lparr>ic_name = Some ''b'', ic_seq_in_index = 2\<rparr>,
                          \<lparr>ic_name = Some ''a'', ic_seq_in_index = 1\<rparr>]\<rparr>)])"
  by (simp add: fold_eval name_seq_def sort_columns_def add_mset_commute)

end
